theory Spec2Isabelle
  imports Main "HOL-Library.Sublist"
begin

section \<open>Common data of client and server\<close>

text \<open>
  Buffers of \<open>char\<close> and \<open>unsigned char\<close> are byte lists.  The helpers of
  \<open>common/\<close> (\<open>get_mtype\<close>, \<open>read_field\<close>, \<open>send_header\<close>, \<open>send_field\<close>,
  \<open>gen_keypair\<close>, \<open>kdf\<close>, \<open>gen_iv\<close>, \<open>string_to_uchar\<close>, the sequence-number
  functions) and the OpenSSL library are not part of the two translated files.  What
  each of their calls returns is a field of an environment record, so every theorem
  holds for whatever these callees do; the calls themselves are logged, in order, in a
  trace.
\<close>

type_synonym bytes = "char list"

definition NUL :: char where
  "NUL = CHR 0x00"

text \<open>The \<open>Result\<close> struct of \<open>common/errors.h\<close>, as the callers read it.\<close>

record 'a Result =
  is_error :: bool
  error :: string
  result :: 'a

text \<open>
  Modelled from the spec: the message types of \<open>common/types.h\<close>, which is not among
  the translated files.  Section 6: a single-byte tag, with the types \<open>AuthStart\<close>,
  \<open>AuthServerAns\<close>, \<open>RenameReq\<close> and further ones; every value the two files do not
  name is \<open>OtherMtype\<close>.
\<close>

datatype mtype = AuthStart | AuthServerAns | RenameReq | OtherMtype char

text \<open>
  How a run ends early: \<open>abort()\<close> after \<open>perror\<close>, a call of \<open>handle_errors\<close>, or
  an access outside a buffer.
\<close>

datatype failure = Abort string | HandleErrors string | OutOfBounds string

text \<open>An \<open>EVP_PKEY\<close> or \<open>X509\<close> object is opaque; it is named by some bytes.\<close>

type_synonym pkey = bytes
type_synonym x509 = bytes

section \<open>Server: \<open>authentication.cpp\<close>\<close>

subsection \<open>State: live allocations, the memory BIO, the trace of calls\<close>

datatype resource =
    UserKey string
  | Username
  | TmpBio
  | ClientHalfKeyPem
  | ClientHalfKey
  | Keypair
  | ServerHalfKeyPem
  | ServerCertificate
  | SignatureCtx
  | ServerPrivateKey
  | ServerSignature
  | SessionKey

datatype event =
    EvLoadUserKey string
  | EvGetMtype
  | EvReadField
  | EvSendHeader mtype
  | EvSendField nat bytes
  | EvGenKeypair
  | EvSignInit
  | EvSignUpdate bytes nat
  | EvSignFinal pkey
  | EvKdf bytes nat int

record sstate =
  live :: "resource list"
  tmp_bio :: bytes
  trace :: "event list"

text \<open>
  The environment of one call of \<open>authenticate\<close>.  A signing context is opaque too: it
  is represented by the list of chunks passed to \<open>EVP_SignUpdate\<close> so far, and what
  \<open>EVP_SignUpdate\<close> and \<open>EVP_SignFinal\<close> return may depend on all of it.
\<close>

record env =
  fopen_user_key :: "string \<Rightarrow> bool"
  PEM_read_PUBKEY :: "string \<Rightarrow> pkey option"
  get_mtype :: "mtype Result"
  read_field_username :: "bytes Result"
  BIO_new_ok :: bool
  read_field_half_key :: "bytes Result"
  BIO_write :: "bytes \<Rightarrow> int"
  PEM_read_bio_PUBKEY :: "bytes \<Rightarrow> pkey option"
  send_header :: "mtype \<Rightarrow> unit Result"
  send_field :: "nat \<Rightarrow> bytes \<Rightarrow> unit Result"
  gen_keypair :: pkey
  PEM_write_bio_PUBKEY :: "pkey \<Rightarrow> int \<times> bytes"
  fopen_server_crt :: bool
  PEM_read_X509 :: "x509 option"
  PEM_write_bio_X509 :: "x509 \<Rightarrow> int \<times> bytes"
  EVP_MD_CTX_new_ok :: bool
  EVP_SignUpdate :: "bytes list \<Rightarrow> bytes \<Rightarrow> nat \<Rightarrow> int"
  fopen_server_key :: bool
  PEM_read_PrivateKey :: "pkey option"
  EVP_SignFinal :: "bytes list \<Rightarrow> pkey \<Rightarrow> int \<times> bytes"
  kdf :: "bytes \<Rightarrow> nat \<Rightarrow> int \<Rightarrow> bytes Result"
  FLEN_MAX :: nat
  flen_cast :: "nat \<Rightarrow> nat"

definition ev :: "event \<Rightarrow> sstate \<Rightarrow> sstate" where
  "ev e s = s\<lparr>trace := trace s @ [e]\<rparr>"

definition alloc :: "resource \<Rightarrow> sstate \<Rightarrow> sstate" where
  "alloc r s = s\<lparr>live := live s @ [r]\<rparr>"

text \<open>\<open>delete[]\<close>, \<open>EVP_PKEY_free\<close>, \<open>BIO_free\<close>, \<open>EVP_MD_CTX_free\<close>.\<close>

definition release :: "resource \<Rightarrow> sstate \<Rightarrow> sstate" where
  "release r s = s\<lparr>live := remove1 r (live s)\<rparr>"

text \<open>
  Modelled from the spec: \<open>handle_errors\<close> of \<open>common/errors.h\<close>, which is not among
  the translated files.  Sections 4.4 and 7: a failure is fatal to the connection
  attempt, there is no retry, and the reference behaviour ends the process.  So a call
  ends the run with its message, in the state reached; it does not return to its caller
  (the code after each call uses buffers the branch has just freed).
\<close>

definition handle_errors :: "string \<Rightarrow> 's \<Rightarrow> (failure + 'a) \<times> 's" where
  "handle_errors msg s = (Inl (HandleErrors msg), s)"

text \<open>\<open>BIO_reset\<close> on a read-write memory BIO drops its data.\<close>

definition BIO_reset :: "sstate \<Rightarrow> sstate" where
  "BIO_reset s = s\<lparr>tmp_bio := []\<rparr>"

subsection \<open>\<open>free_user_keys\<close> and \<open>setup_keys\<close>\<close>

type_synonym user_map = "(string \<times> pkey) list"

fun free_user_keys :: "user_map \<Rightarrow> sstate \<Rightarrow> sstate" where
  "free_user_keys [] s = s"
| "free_user_keys ((u, k) # keys) s = free_user_keys keys (release (UserKey u) s)"

definition users :: "string list" where
  "users = [''alice'', ''bob'']"

definition server_name :: bytes where
  "server_name = ''server'' @ [NUL]"

text \<open>\<open>std::map::insert\<close> keeps the entry of a key that is already present.\<close>

definition map_insert :: "string \<Rightarrow> pkey \<Rightarrow> user_map \<Rightarrow> user_map" where
  "map_insert u k m = (if u \<in> fst ` set m then m else m @ [(u, k)])"

fun setup_keys_loop ::
  "env \<Rightarrow> string list \<Rightarrow> user_map \<Rightarrow> sstate \<Rightarrow> (failure + user_map) \<times> sstate" where
  "setup_keys_loop E [] user_map s = (Inr user_map, s)"
| "setup_keys_loop E (user # rest) user_map s =
     (let s = ev (EvLoadUserKey user) s in
      if \<not> fopen_user_key E user then (Inl (Abort ''Cannot read user key''), s)
      else
      (case PEM_read_PUBKEY E user of
         None \<Rightarrow> handle_errors [] (free_user_keys user_map s)
       | Some pubkey \<Rightarrow>
           setup_keys_loop E rest (map_insert user pubkey user_map)
             (alloc (UserKey user) s)))"

definition setup_keys :: "env \<Rightarrow> sstate \<Rightarrow> (failure + user_map) \<times> sstate" where
  "setup_keys E s = setup_keys_loop E users [] s"

text \<open>
  \<open>user_keys.find(username)\<close> converts the \<open>char *\<close> to a \<open>std::string\<close>: the bytes in
  front of the first NUL.
\<close>

definition c_str :: "bytes \<Rightarrow> string" where
  "c_str b = takeWhile (\<lambda>c. c \<noteq> NUL) b"

definition find_user :: "user_map \<Rightarrow> string \<Rightarrow> pkey option" where
  "find_user m u = map_of m u"

subsection \<open>\<open>authenticate\<close>, lines 86 to 162: the client's opening message\<close>

text \<open>
  \<open>username[username_len - 1] = '\0'\<close>.  With \<open>username_len = 0\<close> the index is outside
  the buffer.
\<close>

definition terminate_username :: "bytes \<Rightarrow> bytes" where
  "terminate_username u = u[length u - 1 := NUL]"

definition releases :: "resource list \<Rightarrow> sstate \<Rightarrow> sstate" where
  "releases rs s = foldl (\<lambda>s r. release r s) s rs"

definition client_opening ::
  "env \<Rightarrow> user_map \<Rightarrow> sstate \<Rightarrow> (failure + bytes \<times> bytes \<times> pkey) \<times> sstate" where
  "client_opening E user_keys s =
    (let client_header_result = get_mtype E; s = ev EvGetMtype s in
     if is_error client_header_result \<or> result client_header_result \<noteq> AuthStart
     then handle_errors ''Incorrect message type'' (free_user_keys user_keys s)
     else
     let username_result = read_field_username E; s = ev EvReadField s in
     if is_error username_result
     then handle_errors (error username_result) (free_user_keys user_keys s)
     else
     let username = result username_result; s = alloc Username s in
     if length username = 0
     then (Inl (OutOfBounds ''username[username_len - 1]''), s)
     else
     let username = terminate_username username in
     if find_user user_keys (c_str username) = None
     then handle_errors ''User not registered!''
            (releases [Username] (free_user_keys user_keys s))
     else
     if \<not> BIO_new_ok E
     then handle_errors ''Could not allocate memory bio''
            (releases [Username] (free_user_keys user_keys s))
     else
     let s = (alloc TmpBio s)\<lparr>tmp_bio := []\<rparr>;
         half_key_result = read_field_half_key E; s = ev EvReadField s in
     if is_error half_key_result
     then handle_errors (error half_key_result)
            (releases [Username, TmpBio] (free_user_keys user_keys s))
     else
     let client_half_key_pem = result half_key_result; s = alloc ClientHalfKeyPem s in
     if BIO_write E client_half_key_pem \<noteq> int (length client_half_key_pem)
     then handle_errors ''Could not write to memory bio''
            (releases [Username, ClientHalfKeyPem, TmpBio] (free_user_keys user_keys s))
     else
     let s = s\<lparr>tmp_bio := tmp_bio s @ client_half_key_pem\<rparr> in
     (case PEM_read_bio_PUBKEY E (tmp_bio s) of
        None \<Rightarrow>
          handle_errors ''Could not read from memory bio''
            (releases [Username, ClientHalfKeyPem, TmpBio] (free_user_keys user_keys s))
      | Some client_half_key \<Rightarrow>
          (Inr (username, client_half_key_pem, client_half_key),
           BIO_reset (alloc ClientHalfKey s))))"

subsection \<open>Lines 174 to 264: header, server name and the server's half key\<close>

definition server_half_key ::
  "env \<Rightarrow> user_map \<Rightarrow> sstate \<Rightarrow> (failure + bytes) \<times> sstate" where
  "server_half_key E user_keys s =
    (let send_header_result = send_header E AuthServerAns;
         s = ev (EvSendHeader AuthServerAns) s in
     if is_error send_header_result
     then handle_errors (error send_header_result)
            (releases [Username, ClientHalfKeyPem, ClientHalfKey]
              (free_user_keys user_keys s))
     else
     let send_server_name_res = send_field E (length server_name) server_name;
         s = ev (EvSendField (length server_name) server_name) s in
     if is_error send_server_name_res
     then handle_errors (error send_server_name_res)
            (releases [Username, ClientHalfKeyPem, ClientHalfKey]
              (free_user_keys user_keys s))
     else
     let keypair = gen_keypair E; s = alloc Keypair (ev EvGenKeypair s);
         written = PEM_write_bio_PUBKEY E keypair in
     if fst written \<noteq> 1
     then handle_errors ''Could not write to memory bio''
            (releases [Username, ClientHalfKeyPem, TmpBio, ClientHalfKey]
              (free_user_keys user_keys s))
     else
     let s = s\<lparr>tmp_bio := tmp_bio s @ snd written\<rparr>;
         server_half_key_len = length (tmp_bio s) in
     if int server_half_key_len \<le> 0
     then handle_errors ''Could not read from memory bio''
            (releases [Username, ClientHalfKeyPem, TmpBio, ClientHalfKey]
              (free_user_keys user_keys s))
     else
     if server_half_key_len > FLEN_MAX E
     then handle_errors
            ''Server's half key length is bigger than the maximum field's length''
            (releases [Username, ClientHalfKeyPem, TmpBio, ClientHalfKey]
              (free_user_keys user_keys s))
     else
     let server_half_key_pem = tmp_bio s; s = alloc ServerHalfKeyPem s;
         send_server_half_key_result =
           send_field E (flen_cast E server_half_key_len) (tmp_bio s);
         s = ev (EvSendField (flen_cast E server_half_key_len) (tmp_bio s)) s in
     if is_error send_server_half_key_result
     then handle_errors (error send_server_half_key_result)
            (releases [Username, ClientHalfKeyPem, ServerHalfKeyPem, TmpBio, ClientHalfKey]
              (free_user_keys user_keys s))
     else (Inr server_half_key_pem, BIO_reset s))"

subsection \<open>Lines 266 to 355: the server's certificate\<close>

definition server_certificate :: "env \<Rightarrow> user_map \<Rightarrow> sstate \<Rightarrow> (failure + unit) \<times> sstate" where
  "server_certificate E user_keys s =
    (if \<not> fopen_server_crt E
     then handle_errors ''Could not open server's certificate file''
            (releases [Username, ClientHalfKeyPem, ServerHalfKeyPem, TmpBio, ClientHalfKey]
              (free_user_keys user_keys s))
     else
     (case PEM_read_X509 E of
        None \<Rightarrow>
          handle_errors ''Could not read X509 certificate from file''
            (releases [Username, ClientHalfKeyPem, ServerHalfKeyPem, TmpBio, ClientHalfKey]
              (free_user_keys user_keys s))
      | Some certificate \<Rightarrow>
     let s = alloc ServerCertificate s;
         written = PEM_write_bio_X509 E certificate in
     if fst written \<noteq> 1
     then handle_errors ''Could not write to memory bio''
            (releases [Username, ClientHalfKeyPem, ServerHalfKeyPem, TmpBio, ClientHalfKey]
              (free_user_keys user_keys s))
     else
     let s = s\<lparr>tmp_bio := tmp_bio s @ snd written\<rparr>;
         server_certificate_len = length (tmp_bio s) in
     if int server_certificate_len \<le> 0
     then handle_errors ''Could not read from memory bio''
            (releases [Username, ClientHalfKeyPem, ServerHalfKeyPem, TmpBio, ClientHalfKey]
              (free_user_keys user_keys s))
     else
     if server_certificate_len > FLEN_MAX E
     then handle_errors
            ''Server's certificate length is bigger than the maximum field's length''
            (releases [Username, ClientHalfKeyPem, ServerHalfKeyPem, TmpBio, ClientHalfKey]
              (free_user_keys user_keys s))
     else
     let send_server_certificate_result =
           send_field E (flen_cast E server_certificate_len) (tmp_bio s);
         s = ev (EvSendField (flen_cast E server_certificate_len) (tmp_bio s)) s in
     if is_error send_server_certificate_result
     then handle_errors (error send_server_certificate_result)
            (releases [Username, ClientHalfKeyPem, ServerHalfKeyPem, TmpBio, ClientHalfKey]
              (free_user_keys user_keys s))
     else (Inr (), BIO_reset s)))"

subsection \<open>Lines 357 to 458: the server's signature\<close>

text \<open>
  \<open>err\<close> collects the three return values of \<open>EVP_SignUpdate\<close> with \<open>|=\<close>; each call
  passes a whole buffer (the length argument is the buffer's own length).
\<close>

definition server_signature ::
  "env \<Rightarrow> user_map \<Rightarrow> bytes \<Rightarrow> bytes \<Rightarrow> bytes \<Rightarrow> sstate \<Rightarrow> (failure + unit) \<times> sstate" where
  "server_signature E user_keys username client_half_key_pem server_half_key_pem s =
    (if \<not> EVP_MD_CTX_new_ok E
     then handle_errors ''Could not allocate signing context''
            (releases [Username, ClientHalfKeyPem, ClientHalfKey]
              (free_user_keys user_keys s))
     else
     let s = ev EvSignInit (alloc SignatureCtx s);
         err = (0 :: int);
         err = or err (EVP_SignUpdate E [] client_half_key_pem (length client_half_key_pem));
         s = ev (EvSignUpdate client_half_key_pem (length client_half_key_pem)) s;
         err = or err (EVP_SignUpdate E [client_half_key_pem] server_half_key_pem
                         (length server_half_key_pem));
         s = ev (EvSignUpdate server_half_key_pem (length server_half_key_pem)) s;
         err = or err (EVP_SignUpdate E [client_half_key_pem, server_half_key_pem] username
                         (length username));
         s = ev (EvSignUpdate username (length username)) s in
     if err \<noteq> 1
     then handle_errors ''Could not sign correctly (update)''
            (releases [Username, ClientHalfKeyPem, ServerHalfKeyPem, ClientHalfKey,
                       SignatureCtx]
              (free_user_keys user_keys s))
     else
     if \<not> fopen_server_key E
     then handle_errors ''Could not open server's private key''
            (releases [Username, ClientHalfKeyPem, ServerHalfKeyPem, ClientHalfKey,
                       SignatureCtx]
              (free_user_keys user_keys s))
     else
     (case PEM_read_PrivateKey E of
        None \<Rightarrow>
          handle_errors ''Could not read server's private key''
            (releases [Username, ClientHalfKeyPem, ServerHalfKeyPem, ClientHalfKey,
                       SignatureCtx]
              (free_user_keys user_keys s))
      | Some server_private_key \<Rightarrow>
     let s = alloc ServerSignature (alloc ServerPrivateKey s);
         signed = EVP_SignFinal E [client_half_key_pem, server_half_key_pem, username]
                    server_private_key;
         s = ev (EvSignFinal server_private_key) s in
     if fst signed \<noteq> 1
     then handle_errors ''Could not sign correctly (final)''
            (releases [Username, ClientHalfKeyPem, ServerHalfKeyPem, ServerSignature,
                       ClientHalfKey, SignatureCtx]
              (free_user_keys user_keys s))
     else
     let s = releases [SignatureCtx, ServerHalfKeyPem, ClientHalfKeyPem] s;
         server_signature_len = length (snd signed) in
     if server_signature_len > FLEN_MAX E
     then handle_errors ''Server signature is bigger than the max packet field length''
            (releases [Username, ServerSignature, ClientHalfKey] s)
     else
     let send_server_signature_result =
           send_field E (flen_cast E server_signature_len) (snd signed);
         s = ev (EvSendField (flen_cast E server_signature_len) (snd signed)) s in
     if is_error send_server_signature_result
     then handle_errors (error send_server_signature_result)
            (releases [Username, ServerSignature, ClientHalfKey] s)
     else (Inr (), s)))"

subsection \<open>Lines 460 to 473: the end of the handshake\<close>

text \<open>\<open>sizeof("placeholder")\<close> counts the terminating NUL of the literal.\<close>

definition placeholder :: bytes where
  "placeholder = ''placeholder'' @ [NUL]"

definition finish ::
  "env \<Rightarrow> bytes \<Rightarrow> int \<Rightarrow> sstate \<Rightarrow> (failure + bytes \<times> bytes) \<times> sstate" where
  "finish E username key_len s =
    (let key_res = kdf E placeholder (length placeholder) key_len;
         s = ev (EvKdf placeholder (length placeholder) key_len) s in
     if is_error key_res then handle_errors (error key_res) s
     else (Inr (username, result key_res), alloc SessionKey s))"

subsection \<open>\<open>authenticate\<close>\<close>

definition authenticate ::
  "env \<Rightarrow> int \<Rightarrow> sstate \<Rightarrow> (failure + bytes \<times> bytes) \<times> sstate" where
  "authenticate E key_len s =
    (case setup_keys E s of
       (Inl e, s) \<Rightarrow> (Inl e, s)
     | (Inr user_keys, s) \<Rightarrow>
    (case client_opening E user_keys s of
       (Inl e, s) \<Rightarrow> (Inl e, s)
     | (Inr (username, client_half_key_pem, client_half_key), s) \<Rightarrow>
    (case server_half_key E user_keys s of
       (Inl e, s) \<Rightarrow> (Inl e, s)
     | (Inr server_half_key_pem, s) \<Rightarrow>
    (case server_certificate E user_keys s of
       (Inl e, s) \<Rightarrow> (Inl e, s)
     | (Inr _, s) \<Rightarrow>
    (case server_signature E user_keys username client_half_key_pem server_half_key_pem s of
       (Inl e, s) \<Rightarrow> (Inl e, s)
     | (Inr _, s) \<Rightarrow> finish E username key_len s)))))"

text \<open>The state in which a server process calls \<open>authenticate\<close>.\<close>

definition init_state :: sstate where
  "init_state = \<lparr>live = [], tmp_bio = [], trace = []\<rparr>"

section \<open>Client: \<open>actions/rename.cpp\<close>\<close>

subsection \<open>State and environment\<close>

text \<open>
  A cipher context is opaque: it is represented by the calls made on it so far, and what
  each OpenSSL call returns and writes may depend on all of them.  Each call carries
  the input buffer and the length passed with it.
\<close>

datatype evp_call =
    EncryptInit bytes bytes
  | AadUpdate bytes nat
  | EncryptUpdate bytes nat
  | EncryptFinal
  | GetTag nat

datatype cevent =
    CvSendHeader mtype nat bytes nat
  | CvEvp evp_call
  | CvSendField nat bytes
  | CvIncSeqnum

text \<open>
  \<open>seq_num\<close> is the global send counter of \<open>common/seq.h\<close>, read as a number; what
  \<open>inc_seqnum\<close> does to it is a field of the environment.
\<close>

record cstate =
  seq_num :: nat
  ctrace :: "cevent list"

record cenv =
  getline :: "nat \<Rightarrow> string"
  string_to_uchar :: "string \<Rightarrow> bytes"
  gen_iv :: "bytes Result"
  get_iv_len :: nat
  send_header_seq :: "mtype \<Rightarrow> nat \<Rightarrow> bytes \<Rightarrow> nat \<Rightarrow> unit Result"
  EVP_CIPHER_CTX_new_ok :: bool
  EVP_EncryptInit :: "bytes \<Rightarrow> bytes \<Rightarrow> int"
  EVP_EncryptUpdate_aad :: "evp_call list \<Rightarrow> bytes \<Rightarrow> nat \<Rightarrow> int"
  EVP_EncryptUpdate :: "evp_call list \<Rightarrow> bytes \<Rightarrow> nat \<Rightarrow> int \<times> bytes"
  EVP_EncryptFinal :: "evp_call list \<Rightarrow> int \<times> bytes"
  EVP_CTRL_AEAD_GET_TAG :: "evp_call list \<Rightarrow> nat \<Rightarrow> int \<times> bytes"
  client_send_field :: "nat \<Rightarrow> bytes \<Rightarrow> unit Result"
  mtype_to_uc :: "mtype \<Rightarrow> char"
  seqnum_to_uc :: "nat \<Rightarrow> bytes"
  sizeof_seqnum :: nat
  inc_seqnum :: "nat \<Rightarrow> nat"
  FNAME_MAX_LEN :: nat
  TAG_LEN :: nat
  get_block_size :: nat
  client_flen_cast :: "nat \<Rightarrow> nat"
  heap :: "nat \<Rightarrow> char"

definition cev :: "cevent \<Rightarrow> cstate \<Rightarrow> cstate" where
  "cev e s = s\<lparr>ctrace := ctrace s @ [e]\<rparr>"

text \<open>\<open>new unsigned char[n]\<close>: \<open>n\<close> bytes whose contents are whatever the heap holds.\<close>

definition new_uchar :: "cenv \<Rightarrow> nat \<Rightarrow> bytes" where
  "new_uchar E n = map (heap E) [0..<n]"

text \<open>
  A callee writing \<open>out\<close> at \<open>buf + off\<close>; \<open>None\<close> when the write would leave the
  buffer.
\<close>

definition write_at :: "bytes \<Rightarrow> nat \<Rightarrow> bytes \<Rightarrow> bytes option" where
  "write_at buf off out =
     (if off + length out \<le> length buf
      then Some (take off buf @ out @ drop (off + length out) buf)
      else None)"

subsection \<open>\<open>rename\<close>\<close>

text \<open>
  Both \<open>EVP_EncryptUpdate\<close> calls on the payload write at \<open>ct\<close> itself, and
  \<open>EVP_EncryptFinal\<close> writes at \<open>ct + len\<close>, where \<open>len\<close> is the length the second
  call reported; \<open>ct_len\<close> adds the three lengths up.
\<close>

definition rename :: "cenv \<Rightarrow> bytes \<Rightarrow> cstate \<Rightarrow> (failure + unit) \<times> cstate" where
  "rename E key s =
    (let f_old = string_to_uchar E (getline E 0);
         f_new = string_to_uchar E (getline E 1);
         iv_res = gen_iv E in
     if is_error iv_res then handle_errors (error iv_res) s
     else
     let iv = result iv_res;
         send_packet_header_res =
           send_header_seq E RenameReq (seq_num s) iv (get_iv_len E);
         s = cev (CvSendHeader RenameReq (seq_num s) iv (get_iv_len E)) s in
     if is_error send_packet_header_res
     then handle_errors (error send_packet_header_res) s
     else
     if \<not> EVP_CIPHER_CTX_new_ok E
     then handle_errors ''Could not encrypt message (alloc)'' s
     else
     let ctx = [EncryptInit key iv]; s = cev (CvEvp (EncryptInit key iv)) s in
     if EVP_EncryptInit E key iv \<noteq> 1 then handle_errors [] s
     else
     let err = (0 :: int);
         header = mtype_to_uc E RenameReq;
         err = or err (EVP_EncryptUpdate_aad E ctx [header] 1);
         ctx = ctx @ [AadUpdate [header] 1];
         s = cev (CvEvp (AadUpdate [header] 1)) s;
         err = or err (EVP_EncryptUpdate_aad E ctx (seqnum_to_uc E (seq_num s))
                         (sizeof_seqnum E));
         ctx = ctx @ [AadUpdate (seqnum_to_uc E (seq_num s)) (sizeof_seqnum E)];
         s = cev (CvEvp (AadUpdate (seqnum_to_uc E (seq_num s)) (sizeof_seqnum E))) s in
     if err \<noteq> 1 then handle_errors [] s
     else
     let ct = new_uchar E (FNAME_MAX_LEN E * 2 + get_block_size E) in
     if length f_old < FNAME_MAX_LEN E
     then (Inl (OutOfBounds ''f_old''), s)
     else
     let r = EVP_EncryptUpdate E ctx f_old (FNAME_MAX_LEN E);
         ctx = ctx @ [EncryptUpdate f_old (FNAME_MAX_LEN E)];
         s = cev (CvEvp (EncryptUpdate f_old (FNAME_MAX_LEN E))) s in
     if fst r \<noteq> 1 then handle_errors [] s
     else
     (case write_at ct 0 (snd r) of
        None \<Rightarrow> (Inl (OutOfBounds ''ct''), s)
      | Some ct \<Rightarrow>
     let len = length (snd r); ct_len = len in
     if length f_new < FNAME_MAX_LEN E
     then (Inl (OutOfBounds ''f_new''), s)
     else
     let r = EVP_EncryptUpdate E ctx f_new (FNAME_MAX_LEN E);
         ctx = ctx @ [EncryptUpdate f_new (FNAME_MAX_LEN E)];
         s = cev (CvEvp (EncryptUpdate f_new (FNAME_MAX_LEN E))) s in
     if fst r \<noteq> 1 then handle_errors [] s
     else
     (case write_at ct 0 (snd r) of
        None \<Rightarrow> (Inl (OutOfBounds ''ct''), s)
      | Some ct \<Rightarrow>
     let len = length (snd r); ct_len = ct_len + len;
         r = EVP_EncryptFinal E ctx;
         ctx = ctx @ [EncryptFinal];
         s = cev (CvEvp EncryptFinal) s in
     if fst r \<noteq> 1 then handle_errors [] s
     else
     (case write_at ct len (snd r) of
        None \<Rightarrow> (Inl (OutOfBounds ''ct + len''), s)
      | Some ct \<Rightarrow>
     let len = length (snd r); ct_len = ct_len + len;
         r = EVP_CTRL_AEAD_GET_TAG E ctx (TAG_LEN E);
         s = cev (CvEvp (GetTag (TAG_LEN E))) s in
     if fst r \<noteq> 1 then handle_errors [] s
     else
     (case write_at (new_uchar E (TAG_LEN E)) 0 (snd r) of
        None \<Rightarrow> (Inl (OutOfBounds ''tag''), s)
      | Some tag \<Rightarrow>
     if client_flen_cast E ct_len > length ct
     then (Inl (OutOfBounds ''ct''), s)
     else
     let ct_send_res =
           client_send_field E (client_flen_cast E ct_len)
             (take (client_flen_cast E ct_len) ct);
         s = cev (CvSendField (client_flen_cast E ct_len)
                    (take (client_flen_cast E ct_len) ct)) s in
     if is_error ct_send_res then handle_errors (error ct_send_res) s
     else
     if client_flen_cast E (TAG_LEN E) > length tag
     then (Inl (OutOfBounds ''tag''), s)
     else
     let tag_send_res =
           client_send_field E (client_flen_cast E (TAG_LEN E))
             (take (client_flen_cast E (TAG_LEN E)) tag);
         s = cev (CvSendField (client_flen_cast E (TAG_LEN E))
                    (take (client_flen_cast E (TAG_LEN E)) tag)) s in
     if is_error tag_send_res then handle_errors (error tag_send_res) s
     else
     (Inr (), cev CvIncSeqnum (s\<lparr>seq_num := inc_seqnum E (seq_num s)\<rparr>)))))))"

section \<open>Reading the traces\<close>

text \<open>The calls one run of \<open>authenticate\<close> adds to the trace.\<close>

definition run_trace :: "env \<Rightarrow> int \<Rightarrow> sstate \<Rightarrow> event list" where
  "run_trace E key_len s = drop (length (trace s)) (trace (snd (authenticate E key_len s)))"

fun is_load :: "event \<Rightarrow> bool" where
  "is_load (EvLoadUserKey u) = True"
| "is_load e = False"

fun is_recv :: "event \<Rightarrow> bool" where
  "is_recv EvGetMtype = True"
| "is_recv EvReadField = True"
| "is_recv e = False"

fun is_sign :: "event \<Rightarrow> bool" where
  "is_sign EvSignInit = True"
| "is_sign (EvSignUpdate b n) = True"
| "is_sign (EvSignFinal k) = True"
| "is_sign e = False"

text \<open>
  The bytes passed to the signing context: the chunks of the \<open>EVP_SignUpdate\<close>
  calls, each cut at the length passed with it, one after the other.
\<close>

fun signed_bytes :: "event list \<Rightarrow> bytes" where
  "signed_bytes [] = []"
| "signed_bytes (EvSignUpdate b n # tr) = take n b @ signed_bytes tr"
| "signed_bytes (e # tr) = signed_bytes tr"

text \<open>
  The calls of \<open>authenticate\<close> in the order of the source text, with the values the
  environment gives them.  A run that ends early makes the calls of a front part of this
  list (\<open>authenticate_trace_prefix\<close> below).
\<close>

definition sign_part :: "env \<Rightarrow> int \<Rightarrow> event list" where
  "sign_part E key_len =
    (let p = result (read_field_half_key E);
         sp = snd (PEM_write_bio_PUBKEY E (gen_keypair E));
         u = terminate_username (result (read_field_username E)) in
     [EvSignInit, EvSignUpdate p (length p), EvSignUpdate sp (length sp),
      EvSignUpdate u (length u)] @
     (case PEM_read_PrivateKey E of
        None \<Rightarrow> []
      | Some sk \<Rightarrow>
          [EvSignFinal sk,
           EvSendField (flen_cast E (length (snd (EVP_SignFinal E [p, sp, u] sk))))
             (snd (EVP_SignFinal E [p, sp, u] sk)),
           EvKdf placeholder (length placeholder) key_len]))"

definition full_trace :: "env \<Rightarrow> int \<Rightarrow> event list" where
  "full_trace E key_len =
    (let sp = snd (PEM_write_bio_PUBKEY E (gen_keypair E)) in
     [EvLoadUserKey ''alice'', EvLoadUserKey ''bob'', EvGetMtype, EvReadField, EvReadField,
      EvSendHeader AuthServerAns, EvSendField (length server_name) server_name, EvGenKeypair,
      EvSendField (flen_cast E (length sp)) sp] @
     (case PEM_read_X509 E of
        None \<Rightarrow> []
      | Some c \<Rightarrow>
          EvSendField (flen_cast E (length (snd (PEM_write_bio_X509 E c))))
            (snd (PEM_write_bio_X509 E c)) # sign_part E key_len))"

text \<open>
  Every call of \<open>setup_keys\<close> opens the key file of the first user exactly once, so the
  number of these events is the number of times the table was built.
\<close>

definition table_builds :: "event list \<Rightarrow> nat" where
  "table_builds tr = length (filter (\<lambda>e. e = EvLoadUserKey (hd users)) tr)"

text \<open>The keys of the table that are still allocated.\<close>

fun is_user_key :: "resource \<Rightarrow> bool" where
  "is_user_key (UserKey u) = True"
| "is_user_key r = False"

definition table_keys_live :: "sstate \<Rightarrow> resource list" where
  "table_keys_live s = filter is_user_key (live s)"

text \<open>
  The same for \<open>rename\<close>: the calls one run adds, the two file-name buffers, the
  calls on the cipher context in the order of the source text, and what the library
  writes for each of the three encryption calls and for the tag.
\<close>

definition rename_trace :: "cenv \<Rightarrow> bytes \<Rightarrow> cstate \<Rightarrow> cevent list" where
  "rename_trace E key s = drop (length (ctrace s)) (ctrace (snd (rename E key s)))"

definition f_old :: "cenv \<Rightarrow> bytes" where
  "f_old E = string_to_uchar E (getline E 0)"

definition f_new :: "cenv \<Rightarrow> bytes" where
  "f_new E = string_to_uchar E (getline E 1)"

definition aad_ctx :: "cenv \<Rightarrow> bytes \<Rightarrow> nat \<Rightarrow> evp_call list" where
  "aad_ctx E key n =
     [EncryptInit key (result (gen_iv E)),
      AadUpdate [mtype_to_uc E RenameReq] 1,
      AadUpdate (seqnum_to_uc E n) (sizeof_seqnum E)]"

definition payload_calls :: "cenv \<Rightarrow> evp_call list" where
  "payload_calls E =
     [EncryptUpdate (f_old E) (FNAME_MAX_LEN E), EncryptUpdate (f_new E) (FNAME_MAX_LEN E)]"

definition aead_calls :: "cenv \<Rightarrow> bytes \<Rightarrow> nat \<Rightarrow> evp_call list" where
  "aead_calls E key n = aad_ctx E key n @ payload_calls E @ [EncryptFinal, GetTag (TAG_LEN E)]"

definition ct_old :: "cenv \<Rightarrow> bytes \<Rightarrow> nat \<Rightarrow> bytes" where
  "ct_old E key n = snd (EVP_EncryptUpdate E (aad_ctx E key n) (f_old E) (FNAME_MAX_LEN E))"

definition ct_new :: "cenv \<Rightarrow> bytes \<Rightarrow> nat \<Rightarrow> bytes" where
  "ct_new E key n =
     snd (EVP_EncryptUpdate E (aad_ctx E key n @ [EncryptUpdate (f_old E) (FNAME_MAX_LEN E)])
            (f_new E) (FNAME_MAX_LEN E))"

definition ct_final :: "cenv \<Rightarrow> bytes \<Rightarrow> nat \<Rightarrow> bytes" where
  "ct_final E key n = snd (EVP_EncryptFinal E (aad_ctx E key n @ payload_calls E))"

definition tag_out :: "cenv \<Rightarrow> bytes \<Rightarrow> nat \<Rightarrow> bytes" where
  "tag_out E key n =
     snd (EVP_CTRL_AEAD_GET_TAG E (aad_ctx E key n @ payload_calls E @ [EncryptFinal])
            (TAG_LEN E))"

definition ct_buffer :: "cenv \<Rightarrow> bytes" where
  "ct_buffer E = new_uchar E (FNAME_MAX_LEN E * 2 + get_block_size E)"

fun is_evp :: "cevent \<Rightarrow> bool" where
  "is_evp (CvEvp c) = True"
| "is_evp e = False"

section \<open>Concrete runs\<close>

definition ok :: "'a \<Rightarrow> 'a Result" where
  "ok x = \<lparr>is_error = False, error = [], result = x\<rparr>"

text \<open>
  A run in which every callee succeeds: the client announces \<open>alice\<close> and sends the
  half key \<open>Ka\<close>; nothing else ever arrives from it.
\<close>

definition env_alice :: env where
  "env_alice = \<lparr>
     fopen_user_key = (\<lambda>u. True),
     PEM_read_PUBKEY = (\<lambda>u. Some (''pub-'' @ u)),
     get_mtype = ok AuthStart,
     read_field_username = ok (''alice'' @ [NUL]),
     BIO_new_ok = True,
     read_field_half_key = ok ''Ka'',
     BIO_write = (\<lambda>b. int (length b)),
     PEM_read_bio_PUBKEY = (\<lambda>b. Some b),
     send_header = (\<lambda>t. ok ()),
     send_field = (\<lambda>n b. ok ()),
     gen_keypair = ''y'',
     PEM_write_bio_PUBKEY = (\<lambda>k. (1, ''Ks'')),
     fopen_server_crt = True,
     PEM_read_X509 = Some ''cert'',
     PEM_write_bio_X509 = (\<lambda>c. (1, ''CERT'')),
     EVP_MD_CTX_new_ok = True,
     EVP_SignUpdate = (\<lambda>ctx b n. 1),
     fopen_server_key = True,
     PEM_read_PrivateKey = Some ''sk'',
     EVP_SignFinal = (\<lambda>chunks k. (1, ''sig:'' @ concat chunks)),
     kdf = (\<lambda>secret n key_len. ok (take (nat key_len) (rev secret))),
     FLEN_MAX = 65535,
     flen_cast = (\<lambda>n. n)\<rparr>"

text \<open>
  A client run with file names of 8 bytes, a cipher that writes the bytes it reads in
  reverse order, and a heap that holds \<open>?\<close> everywhere.
\<close>

definition pad :: "nat \<Rightarrow> string \<Rightarrow> bytes" where
  "pad n x = take n (x @ replicate n NUL)"

definition cenv_rename :: cenv where
  "cenv_rename = \<lparr>
     getline = (\<lambda>n. if n = 0 then ''old.txt'' else ''new.txt''),
     string_to_uchar = pad 8,
     gen_iv = ok ''iv'',
     get_iv_len = 2,
     send_header_seq = (\<lambda>t n iv l. ok ()),
     EVP_CIPHER_CTX_new_ok = True,
     EVP_EncryptInit = (\<lambda>k iv. 1),
     EVP_EncryptUpdate_aad = (\<lambda>ctx b n. 1),
     EVP_EncryptUpdate = (\<lambda>ctx b n. (1, rev (take n b))),
     EVP_EncryptFinal = (\<lambda>ctx. (1, [])),
     EVP_CTRL_AEAD_GET_TAG = (\<lambda>ctx n. (1, replicate n (CHR ''T''))),
     client_send_field = (\<lambda>n b. ok ()),
     mtype_to_uc = (\<lambda>t. CHR ''R''),
     seqnum_to_uc = (\<lambda>n. replicate n (CHR ''|'')),
     sizeof_seqnum = 4,
     inc_seqnum = Suc,
     FNAME_MAX_LEN = 8,
     TAG_LEN = 4,
     get_block_size = 4,
     client_flen_cast = (\<lambda>n. n),
     heap = (\<lambda>a. CHR ''?'')\<rparr>"

definition cstate0 :: cstate where
  "cstate0 = \<lparr>seq_num = 4, ctrace = []\<rparr>"

section \<open>Basic facts about the server model\<close>

lemmas server_run =
  authenticate_def setup_keys_def users_def map_insert_def client_opening_def
  server_half_key_def server_certificate_def server_signature_def finish_def
  handle_errors_def terminate_username_def c_str_def find_user_def server_name_def
  placeholder_def NUL_def Let_def ev_def alloc_def release_def releases_def BIO_reset_def
  init_state_def env_alice_def ok_def

lemma ev_simps [simp]:
  "trace (ev e s) = trace s @ [e]" "live (ev e s) = live s" "tmp_bio (ev e s) = tmp_bio s"
  by (simp_all add: ev_def)

lemma alloc_simps [simp]:
  "trace (alloc r s) = trace s" "live (alloc r s) = live s @ [r]" "tmp_bio (alloc r s) = tmp_bio s"
  by (simp_all add: alloc_def)

lemma release_simps [simp]:
  "trace (release r s) = trace s" "live (release r s) = remove1 r (live s)"
  "tmp_bio (release r s) = tmp_bio s"
  by (simp_all add: release_def)

lemma releases_simps [simp]:
  "trace (releases rs s) = trace s" "tmp_bio (releases rs s) = tmp_bio s"
  "releases [] s = s" "releases (r # rs) s = releases rs (release r s)"
  by (induction rs arbitrary: s) (simp_all add: releases_def)

lemma free_user_keys_simps [simp]:
  "trace (free_user_keys m s) = trace s" "tmp_bio (free_user_keys m s) = tmp_bio s"
  by (induction m s rule: free_user_keys.induct) simp_all

lemma BIO_reset_simps [simp]:
  "trace (BIO_reset s) = trace s" "live (BIO_reset s) = live s" "tmp_bio (BIO_reset s) = []"
  by (simp_all add: BIO_reset_def)

lemma client_opening_Inr:
  assumes "client_opening E uk s = (Inr (u, p, k), s')"
  shows "\<not> is_error (get_mtype E) \<and> result (get_mtype E) = AuthStart
     \<and> \<not> is_error (read_field_username E) \<and> result (read_field_username E) \<noteq> []
     \<and> u = terminate_username (result (read_field_username E))
     \<and> find_user uk (c_str u) \<noteq> None
     \<and> \<not> is_error (read_field_half_key E) \<and> p = result (read_field_half_key E)
     \<and> PEM_read_bio_PUBKEY E p = Some k
     \<and> trace s' = trace s @ [EvGetMtype, EvReadField, EvReadField]
     \<and> live s' = live s @ [Username, TmpBio, ClientHalfKeyPem, ClientHalfKey]
     \<and> tmp_bio s' = []"
  using assms
  by (simp add: client_opening_def Let_def handle_errors_def split: if_splits option.splits) auto

lemma server_half_key_Inr:
  assumes "server_half_key E uk s = (Inr sp, s')"
  shows "sp = tmp_bio s @ snd (PEM_write_bio_PUBKEY E (gen_keypair E))
     \<and> sp \<noteq> [] \<and> length sp \<le> FLEN_MAX E
     \<and> trace s' = trace s @ [EvSendHeader AuthServerAns,
          EvSendField (length server_name) server_name, EvGenKeypair,
          EvSendField (flen_cast E (length sp)) sp]
     \<and> live s' = live s @ [Keypair, ServerHalfKeyPem]
     \<and> tmp_bio s' = []"
  using assms
  by (simp add: server_half_key_def Let_def handle_errors_def split: if_splits) auto

lemma server_certificate_Inr:
  assumes "server_certificate E uk s = (Inr x, s')"
  shows "(\<exists>c. PEM_read_X509 E = Some c \<and>
       trace s' = trace s @ [EvSendField (flen_cast E (length (tmp_bio s @ snd (PEM_write_bio_X509 E c))))
           (tmp_bio s @ snd (PEM_write_bio_X509 E c))])
     \<and> live s' = live s @ [ServerCertificate]
     \<and> tmp_bio s' = []"
  using assms
  by (simp add: server_certificate_def Let_def handle_errors_def split: if_splits option.splits) auto

lemma server_signature_Inr:
  assumes "server_signature E uk u p sp s = (Inr x, s')"
  shows "\<exists>sk. PEM_read_PrivateKey E = Some sk \<and>
       fst (EVP_SignFinal E [p, sp, u] sk) = 1 \<and>
       trace s' = trace s @ [EvSignInit, EvSignUpdate p (length p), EvSignUpdate sp (length sp),
          EvSignUpdate u (length u), EvSignFinal sk,
          EvSendField (flen_cast E (length (snd (EVP_SignFinal E [p, sp, u] sk))))
            (snd (EVP_SignFinal E [p, sp, u] sk))]
     \<and> live s' = foldr remove1 [ClientHalfKeyPem, ServerHalfKeyPem, SignatureCtx]
          (live s @ [SignatureCtx, ServerPrivateKey, ServerSignature])
     \<and> tmp_bio s' = tmp_bio s"
  using assms
  by (simp add: server_signature_def Let_def handle_errors_def split: if_splits option.splits) auto

lemma finish_Inr:
  assumes "finish E u kl s = (Inr (u', k), s')"
  shows "u' = u \<and> \<not> is_error (kdf E placeholder (length placeholder) kl)
     \<and> k = result (kdf E placeholder (length placeholder) kl)
     \<and> trace s' = trace s @ [EvKdf placeholder (length placeholder) kl]
     \<and> live s' = live s @ [SessionKey] \<and> tmp_bio s' = tmp_bio s"
  using assms
  by (auto simp add: finish_def Let_def handle_errors_def split: if_splits)


lemma setup_keys_Inr:
  assumes "setup_keys E s = (Inr m, s')"
  shows "\<exists>ka kb. PEM_read_PUBKEY E ''alice'' = Some ka \<and> PEM_read_PUBKEY E ''bob'' = Some kb
     \<and> m = [(''alice'', ka), (''bob'', kb)]
     \<and> trace s' = trace s @ [EvLoadUserKey ''alice'', EvLoadUserKey ''bob'']
     \<and> live s' = live s @ [UserKey ''alice'', UserKey ''bob'']
     \<and> tmp_bio s' = tmp_bio s"
  using assms
  by (simp add: setup_keys_def users_def Let_def handle_errors_def map_insert_def
        split: if_splits option.splits) auto

lemma authenticate_Inr:
  assumes "authenticate E kl s = (Inr (u, k), s')"
  obtains ka kb ck c sk where
    "PEM_read_PUBKEY E ''alice'' = Some ka" "PEM_read_PUBKEY E ''bob'' = Some kb"
    "\<not> is_error (get_mtype E)" "result (get_mtype E) = AuthStart"
    "\<not> is_error (read_field_username E)" "result (read_field_username E) \<noteq> []"
    "u = terminate_username (result (read_field_username E))"
    "find_user [(''alice'', ka), (''bob'', kb)] (c_str u) \<noteq> None"
    "PEM_read_bio_PUBKEY E (result (read_field_half_key E)) = Some ck"
    "PEM_read_X509 E = Some c" "PEM_read_PrivateKey E = Some sk"
    "k = result (kdf E placeholder (length placeholder) kl)"
    "trace s' = trace s @
       [EvLoadUserKey ''alice'', EvLoadUserKey ''bob'', EvGetMtype, EvReadField, EvReadField,
        EvSendHeader AuthServerAns, EvSendField (length server_name) server_name, EvGenKeypair,
        EvSendField (flen_cast E (length (snd (PEM_write_bio_PUBKEY E (gen_keypair E)))))
          (snd (PEM_write_bio_PUBKEY E (gen_keypair E))),
        EvSendField (flen_cast E (length (snd (PEM_write_bio_X509 E c))))
          (snd (PEM_write_bio_X509 E c)),
        EvSignInit,
        EvSignUpdate (result (read_field_half_key E)) (length (result (read_field_half_key E))),
        EvSignUpdate (snd (PEM_write_bio_PUBKEY E (gen_keypair E)))
          (length (snd (PEM_write_bio_PUBKEY E (gen_keypair E)))),
        EvSignUpdate u (length u), EvSignFinal sk,
        EvSendField
          (flen_cast E (length (snd (EVP_SignFinal E
             [result (read_field_half_key E), snd (PEM_write_bio_PUBKEY E (gen_keypair E)), u] sk))))
          (snd (EVP_SignFinal E
             [result (read_field_half_key E), snd (PEM_write_bio_PUBKEY E (gen_keypair E)), u] sk)),
        EvKdf placeholder (length placeholder) kl]"
proof -
  from assms obtain m s1 u0 p ck s2 sp s3 x s4 y s5 where
    1: "setup_keys E s = (Inr m, s1)" and
    p2: "client_opening E m s1 = (Inr (u0, p, ck), s2)" and
    3: "server_half_key E m s2 = (Inr sp, s3)" and
    4: "server_certificate E m s3 = (Inr x, s4)" and
    p5: "server_signature E m u0 p sp s4 = (Inr y, s5)" and
    p6: "finish E u0 kl s5 = (Inr (u, k), s')"
    by (auto simp: authenticate_def split: prod.splits sum.splits)
  from finish_Inr [OF p6] have "u = u0" by simp
  with p2 p5 p6 have 2: "client_opening E m s1 = (Inr (u, p, ck), s2)"
    and 5: "server_signature E m u p sp s4 = (Inr y, s5)"
    and 6: "finish E u kl s5 = (Inr (u, k), s')" by simp_all
  note f1 = setup_keys_Inr [OF 1] and f2 = client_opening_Inr [OF 2]
    and f3 = server_half_key_Inr [OF 3] and f4 = server_certificate_Inr [OF 4]
    and f5 = server_signature_Inr [OF 5] and f6 = finish_Inr [OF 6]
  from f1 obtain ka kb where a: "PEM_read_PUBKEY E ''alice'' = Some ka"
    "PEM_read_PUBKEY E ''bob'' = Some kb" "m = [(''alice'', ka), (''bob'', kb)]"
    "trace s1 = trace s @ [EvLoadUserKey ''alice'', EvLoadUserKey ''bob'']" by blast
  from f4 obtain c where c: "PEM_read_X509 E = Some c"
    "trace s4 = trace s3 @ [EvSendField (flen_cast E (length (tmp_bio s3 @ snd (PEM_write_bio_X509 E c))))
           (tmp_bio s3 @ snd (PEM_write_bio_X509 E c))]" by blast
  from f5 obtain sk where sk: "PEM_read_PrivateKey E = Some sk"
    "trace s5 = trace s4 @ [EvSignInit, EvSignUpdate p (length p), EvSignUpdate sp (length sp),
          EvSignUpdate u (length u), EvSignFinal sk,
          EvSendField (flen_cast E (length (snd (EVP_SignFinal E [p, sp, u] sk))))
            (snd (EVP_SignFinal E [p, sp, u] sk))]" by blast
  have sp: "sp = snd (PEM_write_bio_PUBKEY E (gen_keypair E))" using f2 f3 by simp
  have bio3: "tmp_bio s3 = []" using f3 by simp
  show thesis
  proof (rule that [of ka kb ck c sk])
    show "trace s' = trace s @
       [EvLoadUserKey ''alice'', EvLoadUserKey ''bob'', EvGetMtype, EvReadField, EvReadField,
        EvSendHeader AuthServerAns, EvSendField (length server_name) server_name, EvGenKeypair,
        EvSendField (flen_cast E (length (snd (PEM_write_bio_PUBKEY E (gen_keypair E)))))
          (snd (PEM_write_bio_PUBKEY E (gen_keypair E))),
        EvSendField (flen_cast E (length (snd (PEM_write_bio_X509 E c))))
          (snd (PEM_write_bio_X509 E c)),
        EvSignInit,
        EvSignUpdate (result (read_field_half_key E)) (length (result (read_field_half_key E))),
        EvSignUpdate (snd (PEM_write_bio_PUBKEY E (gen_keypair E)))
          (length (snd (PEM_write_bio_PUBKEY E (gen_keypair E)))),
        EvSignUpdate u (length u), EvSignFinal sk,
        EvSendField
          (flen_cast E (length (snd (EVP_SignFinal E
             [result (read_field_half_key E), snd (PEM_write_bio_PUBKEY E (gen_keypair E)), u] sk))))
          (snd (EVP_SignFinal E
             [result (read_field_half_key E), snd (PEM_write_bio_PUBKEY E (gen_keypair E)), u] sk)),
        EvKdf placeholder (length placeholder) kl]"
      using a(4) f2 f3 c(2) sk(2) f6 sp bio3 by simp
  qed (use a f2 c sk f6 in auto)
qed


lemma setup_keys_prefix:
  "\<exists>tr. trace (snd (setup_keys E s)) = trace s @ tr \<and> tr \<noteq> []
     \<and> prefix tr [EvLoadUserKey ''alice'', EvLoadUserKey ''bob'']"
  by (simp add: setup_keys_def users_def Let_def handle_errors_def map_insert_def
        split: option.splits)

lemma client_opening_prefix:
  "\<exists>tr. trace (snd (client_opening E uk s)) = trace s @ tr
     \<and> prefix tr [EvGetMtype, EvReadField, EvReadField]"
  by (simp add: client_opening_def Let_def handle_errors_def split: option.splits)

lemma server_half_key_prefix:
  "tmp_bio s = [] \<Longrightarrow> \<exists>tr. trace (snd (server_half_key E uk s)) = trace s @ tr
     \<and> prefix tr [EvSendHeader AuthServerAns, EvSendField (length server_name) server_name,
          EvGenKeypair,
          EvSendField (flen_cast E (length (snd (PEM_write_bio_PUBKEY E (gen_keypair E)))))
            (snd (PEM_write_bio_PUBKEY E (gen_keypair E)))]"
  by (simp add: server_half_key_def Let_def handle_errors_def)

lemma server_certificate_prefix:
  "tmp_bio s = [] \<Longrightarrow> \<exists>tr. trace (snd (server_certificate E uk s)) = trace s @ tr
     \<and> prefix tr (case PEM_read_X509 E of None \<Rightarrow> []
          | Some c \<Rightarrow> [EvSendField (flen_cast E (length (snd (PEM_write_bio_X509 E c))))
            (snd (PEM_write_bio_X509 E c))])"
  by (simp add: server_certificate_def Let_def handle_errors_def split: option.splits)

lemma server_signature_prefix:
  "\<exists>tr. trace (snd (server_signature E uk u p sp s)) = trace s @ tr
     \<and> prefix tr ([EvSignInit, EvSignUpdate p (length p), EvSignUpdate sp (length sp),
      EvSignUpdate u (length u)] @
     (case PEM_read_PrivateKey E of
        None \<Rightarrow> []
      | Some sk \<Rightarrow>
          [EvSignFinal sk,
           EvSendField (flen_cast E (length (snd (EVP_SignFinal E [p, sp, u] sk))))
             (snd (EVP_SignFinal E [p, sp, u] sk))]))"
  by (simp add: server_signature_def Let_def handle_errors_def split: option.splits)

lemma finish_trace:
  "trace (snd (finish E u kl s)) = trace s @ [EvKdf placeholder (length placeholder) kl]"
  by (simp add: finish_def Let_def handle_errors_def)


lemma authenticate_trace_prefix:
  "\<exists>tr. trace (snd (authenticate E kl s)) = trace s @ tr \<and> tr \<noteq> []
     \<and> prefix tr (full_trace E kl)"
proof (cases "setup_keys E s")
  case (Pair r1 s1)
  show ?thesis
  proof (cases r1)
    case (Inl e)
    with Pair have "snd (authenticate E kl s) = snd (setup_keys E s)"
      by (simp add: authenticate_def)
    with setup_keys_prefix [of E s] show ?thesis
      by (auto simp: full_trace_def Let_def prefix_Cons)
  next
    case (Inr m)
    with Pair have k1: "setup_keys E s = (Inr m, s1)" by simp
    from setup_keys_Inr [OF k1]
    have t1: "trace s1 = trace s @ [EvLoadUserKey ''alice'', EvLoadUserKey ''bob'']" by blast
    obtain r2 s2 where k2: "client_opening E m s1 = (r2, s2)" by (cases "client_opening E m s1")
    show ?thesis
    proof (cases r2)
      case (Inl e)
      with k1 k2 have "snd (authenticate E kl s) = snd (client_opening E m s1)"
        by (simp add: authenticate_def)
      with client_opening_prefix [of E m s1] t1 show ?thesis
        by (auto simp: full_trace_def Let_def prefix_Cons)
    next
      case (Inr x)
      obtain u p ck where x: "x = (u, p, ck)" by (cases x)
      with Inr k2 have k2': "client_opening E m s1 = (Inr (u, p, ck), s2)" by simp
      note f2 = client_opening_Inr [OF k2']
      from f2 t1 have t2: "trace s2 = trace s @ [EvLoadUserKey ''alice'', EvLoadUserKey ''bob'',
         EvGetMtype, EvReadField, EvReadField]" by simp
      from f2 have b2: "tmp_bio s2 = []" by simp
      obtain r3 s3 where k3: "server_half_key E m s2 = (r3, s3)"
        by (cases "server_half_key E m s2")
      show ?thesis
      proof (cases r3)
        case (Inl e)
        with k1 k2' k3 have "snd (authenticate E kl s) = snd (server_half_key E m s2)"
          by (simp add: authenticate_def)
        with server_half_key_prefix [OF b2, of E m] t2 show ?thesis
          by (auto simp: full_trace_def Let_def prefix_Cons)
      next
        case (Inr sp)
        with k3 have k3': "server_half_key E m s2 = (Inr sp, s3)" by simp
        note f3 = server_half_key_Inr [OF k3']
        from f3 b2 have sp: "sp = snd (PEM_write_bio_PUBKEY E (gen_keypair E))" by simp
        from f3 t2 sp have t3: "trace s3 = trace s @ [EvLoadUserKey ''alice'',
          EvLoadUserKey ''bob'', EvGetMtype, EvReadField, EvReadField,
          EvSendHeader AuthServerAns, EvSendField (length server_name) server_name,
          EvGenKeypair, EvSendField (flen_cast E (length sp)) sp]" by simp
        from f3 have b3: "tmp_bio s3 = []" by simp
        obtain r4 s4 where k4: "server_certificate E m s3 = (r4, s4)"
          by (cases "server_certificate E m s3")
        show ?thesis
        proof (cases r4)
          case (Inl e)
          with k1 k2' k3' k4 have "snd (authenticate E kl s) = snd (server_certificate E m s3)"
            by (simp add: authenticate_def)
          with server_certificate_prefix [OF b3, of E m] t3 sp show ?thesis
            by (auto simp: full_trace_def Let_def prefix_Cons split: option.splits)
        next
          case (Inr y)
          with k4 have k4': "server_certificate E m s3 = (Inr y, s4)" by simp
          from server_certificate_Inr [OF k4'] b3 obtain c where
            c: "PEM_read_X509 E = Some c" and
            t4': "trace s4 = trace s3 @
               [EvSendField (flen_cast E (length (snd (PEM_write_bio_X509 E c))))
                 (snd (PEM_write_bio_X509 E c))]" by auto
          obtain r5 s5 where k5: "server_signature E m u p sp s4 = (r5, s5)"
            by (cases "server_signature E m u p sp s4")
          from f2 have up: "u = terminate_username (result (read_field_username E))"
            "p = result (read_field_half_key E)" by simp_all
          show ?thesis
          proof (cases r5)
            case (Inl e)
            with k1 k2' k3' k4' k5
            have "snd (authenticate E kl s) = snd (server_signature E m u p sp s4)"
              by (simp add: authenticate_def)
            with server_signature_prefix [of E m u p sp s4] t3 t4' sp c up show ?thesis
              by (auto simp: full_trace_def sign_part_def Let_def prefix_Cons split: option.splits)
          next
            case (Inr z)
            with k5 have k5': "server_signature E m u p sp s4 = (Inr z, s5)" by simp
            from server_signature_Inr [OF k5'] obtain sk where
              sk: "PEM_read_PrivateKey E = Some sk" and
              t5': "trace s5 = trace s4 @ [EvSignInit, EvSignUpdate p (length p),
                EvSignUpdate sp (length sp), EvSignUpdate u (length u), EvSignFinal sk,
                EvSendField (flen_cast E (length (snd (EVP_SignFinal E [p, sp, u] sk))))
                  (snd (EVP_SignFinal E [p, sp, u] sk))]" by blast
            from k1 k2' k3' k4' k5'
            have "snd (authenticate E kl s) = snd (finish E u kl s5)"
              by (simp add: authenticate_def)
            with finish_trace [of E u kl s5] t3 t4' t5' sp c sk up show ?thesis
              by (simp add: full_trace_def sign_part_def Let_def)
          qed
        qed
      qed
    qed
  qed
qed


lemma run_trace_prefix:
  "trace (snd (authenticate E kl s)) = trace s @ run_trace E kl s"
  "run_trace E kl s \<noteq> []"
  "prefix (run_trace E kl s) (full_trace E kl)"
  using authenticate_trace_prefix [of E kl s] by (auto simp: run_trace_def)

lemma run_trace_Inr:
  assumes "authenticate E kl s = (Inr (u, k), s')"
  shows "run_trace E kl s = full_trace E kl"
    and "\<exists>c sk. PEM_read_X509 E = Some c \<and> PEM_read_PrivateKey E = Some sk"
proof -
  from assms have s': "snd (authenticate E kl s) = s'" by simp
  show "run_trace E kl s = full_trace E kl"
    by (rule authenticate_Inr [OF assms])
       (simp add: run_trace_def s' full_trace_def sign_part_def Let_def)
  from assms show "\<exists>c sk. PEM_read_X509 E = Some c \<and> PEM_read_PrivateKey E = Some sk"
    by (elim authenticate_Inr) simp
qed


lemma env_alice_run:
  "authenticate env_alice 16 init_state
     = (Inr (''alice'' @ [NUL], rev (''placeholder'' @ [NUL])),
        snd (authenticate env_alice 16 init_state))"
  by (simp add: server_run prod_eq_iff)

section \<open>The session key (C1)\<close>

text \<open>
  C1.  The claim: on the success exit the session key is the key derivation applied to
  the Diffie-Hellman secret of the server's ephemeral private half and the client's
  ephemeral public key.  The code derives it from the 12 bytes of the literal
  \<open>"placeholder"\<close> instead: whenever \<open>authenticate\<close> returns, the key is \<open>kdf\<close>
  applied to that constant, to its length and to \<open>key_len\<close>, whatever half keys were
  exchanged.
\<close>

theorem authenticate_key_from_placeholder:
  assumes "authenticate E key_len s = (Inr (username, key), s')"
  shows "key = result (kdf E (''placeholder'' @ [NUL]) 12 key_len)"
proof -
  from assms have "key = result (kdf E placeholder (length placeholder) key_len)"
    by (rule authenticate_Inr)
  moreover have "length placeholder = 12"
    by (simp add: placeholder_def)
  ultimately have "key = result (kdf E placeholder 12 key_len)"
    by simp
  then show ?thesis
    by (simp only: placeholder_def)
qed

theorem authenticate_key_from_placeholder_witness:
  "fst (authenticate env_alice 16 init_state)
     = Inr (''alice'' @ [NUL], rev (''placeholder'' @ [NUL]))
   \<and> fst (authenticate
        (env_alice\<lparr>read_field_half_key := ok ''Kb'', gen_keypair := ''z''\<rparr>) 16 init_state)
     = Inr (''alice'' @ [NUL], rev (''placeholder'' @ [NUL]))
   \<and> rev (''placeholder'' @ [NUL])
     = result (kdf env_alice (''placeholder'' @ [NUL]) 12 16)"
proof -
  have r: "fst (authenticate env_alice 16 init_state)
      = Inr (''alice'' @ [NUL], rev (''placeholder'' @ [NUL]))"
    by (simp add: server_run)
  then have "authenticate env_alice 16 init_state
      = (Inr (''alice'' @ [NUL], rev (''placeholder'' @ [NUL])),
         snd (authenticate env_alice 16 init_state))"
    by (simp add: prod_eq_iff)
  from authenticate_key_from_placeholder [OF this]
  have k: "rev (''placeholder'' @ [NUL])
      = result (kdf env_alice (''placeholder'' @ [NUL]) 12 16)" .
  have "fst (authenticate
        (env_alice\<lparr>read_field_half_key := ok ''Kb'', gen_keypair := ''z''\<rparr>) 16 init_state)
     = Inr (''alice'' @ [NUL], rev (''placeholder'' @ [NUL]))"
    by (simp add: server_run)
  with r k show ?thesis by blast
qed

section \<open>The client's signature (C2)\<close>

text \<open>
  C2.  The claim: before it returns the username and the key, the server receives the
  client's signature over the transcript and verifies it, and fails when the
  verification fails.  The code does neither (line 464 is a comment with no code under
  it): in every run that returns, the server has read from the socket three times (the
  message type, the username, the client's half key), all before its own answer, and it
  calls \<open>kdf\<close> right after sending its own signature.
\<close>

theorem authenticate_reads_no_client_signature:
  assumes "authenticate E key_len s = (Inr (username, key), s')"
  shows "filter is_recv (run_trace E key_len s) = [EvGetMtype, EvReadField, EvReadField]
    \<and> (\<exists>pre post. run_trace E key_len s = pre @ EvSendHeader AuthServerAns # post
          \<and> filter is_recv post = [])
    \<and> (\<exists>tr n signature. run_trace E key_len s
          = tr @ [EvSendField n signature, EvKdf (''placeholder'' @ [NUL]) 12 key_len])"
proof -
  from run_trace_Inr [OF assms] obtain c sk where
    r: "run_trace E key_len s = full_trace E key_len" and
    c: "PEM_read_X509 E = Some c" "PEM_read_PrivateKey E = Some sk" by blast
  have l: "length placeholder = 12" by (simp add: placeholder_def)
  have 1: "filter is_recv (full_trace E key_len) = [EvGetMtype, EvReadField, EvReadField]"
    using c by (simp add: full_trace_def sign_part_def Let_def)
  have 2: "\<exists>pre post. full_trace E key_len = pre @ EvSendHeader AuthServerAns # post
          \<and> filter is_recv post = []"
    using c
    by (intro exI [of _ "[EvLoadUserKey ''alice'', EvLoadUserKey ''bob'', EvGetMtype,
          EvReadField, EvReadField]"] exI [of _ "drop 6 (full_trace E key_len)"])
       (simp add: full_trace_def sign_part_def Let_def)
  have 3: "\<exists>tr n signature. full_trace E key_len
          = tr @ [EvSendField n signature, EvKdf placeholder 12 key_len]"
    using c l
    by (intro exI [of _ "take 15 (full_trace E key_len)"])
       (simp add: full_trace_def sign_part_def Let_def)
  from 3 have "\<exists>tr n signature. full_trace E key_len
          = tr @ [EvSendField n signature, EvKdf (''placeholder'' @ [NUL]) 12 key_len]"
    by (simp only: placeholder_def)
  with 1 2 r show ?thesis by simp
qed

theorem authenticate_reads_no_client_signature_witness:
  "authenticate env_alice 16 init_state
     = (Inr (''alice'' @ [NUL], rev (''placeholder'' @ [NUL])),
        snd (authenticate env_alice 16 init_state))
   \<and> filter is_recv (run_trace env_alice 16 init_state)
     = [EvGetMtype, EvReadField, EvReadField]
   \<and> (\<exists>pre post. run_trace env_alice 16 init_state = pre @ EvSendHeader AuthServerAns # post
          \<and> filter is_recv post = [])
   \<and> (\<exists>tr n signature. run_trace env_alice 16 init_state
          = tr @ [EvSendField n signature, EvKdf (''placeholder'' @ [NUL]) 12 16])"
  using env_alice_run authenticate_reads_no_client_signature [OF env_alice_run] by blast

section \<open>Unknown users (C4)\<close>

text \<open>
  C4 as stated (every handshake whose claimed username is not a key of the table fails
  as unknown user, before a key pair is generated) fails for a username field that does
  not end in NUL: the field \<open>aliceX\<close> is not a key of the table, and neither is it as a
  string, but line 103 overwrites its last byte, the lookup finds \<open>alice\<close>,
  \<open>gen_keypair\<close> is called and the handshake returns.
\<close>

theorem unterminated_username_is_accepted:
  "setup_keys (env_alice\<lparr>read_field_username := ok ''aliceX''\<rparr>) init_state
     = (Inr [(''alice'', ''pub-alice''), (''bob'', ''pub-bob'')],
        snd (setup_keys (env_alice\<lparr>read_field_username := ok ''aliceX''\<rparr>) init_state))
   \<and> result (read_field_username (env_alice\<lparr>read_field_username := ok ''aliceX''\<rparr>))
     = ''aliceX''
   \<and> ''aliceX'' \<notin> fst ` set [(''alice'', ''pub-alice''), (''bob'', ''pub-bob'')]
   \<and> c_str ''aliceX'' \<notin> fst ` set [(''alice'', ''pub-alice''), (''bob'', ''pub-bob'')]
   \<and> fst (authenticate (env_alice\<lparr>read_field_username := ok ''aliceX''\<rparr>) 16 init_state)
     = Inr (''alice'' @ [NUL], rev (''placeholder'' @ [NUL]))
   \<and> EvGenKeypair
     \<in> set (run_trace (env_alice\<lparr>read_field_username := ok ''aliceX''\<rparr>) 16 init_state)"
  by (simp add: server_run run_trace_def prod_eq_iff)

text \<open>
  C4, amended.  The username the server looks up is the received field, of at least one
  byte, read as a C string after line 103 has put a NUL in its last byte.  When the
  table has been loaded, the message type is \<open>AuthStart\<close>, such a field has arrived and
  this username is not a key of the table, then \<open>authenticate\<close> ends in
  \<open>handle_errors("User not registered!")\<close>; the calls of the run are the two key loads
  and the two reads, so \<open>gen_keypair\<close> has not been called.
\<close>

theorem unknown_user_fails_before_gen_keypair:
  assumes "setup_keys E s = (Inr user_keys, s1)"
    and "\<not> is_error (get_mtype E)" and "result (get_mtype E) = AuthStart"
    and "\<not> is_error (read_field_username E)"
    and "result (read_field_username E) \<noteq> []"
    and "c_str (terminate_username (result (read_field_username E))) \<notin> fst ` set user_keys"
  shows "fst (authenticate E key_len s) = Inl (HandleErrors ''User not registered!'')
    \<and> run_trace E key_len s
        = [EvLoadUserKey ''alice'', EvLoadUserKey ''bob'', EvGetMtype, EvReadField]
    \<and> EvGenKeypair \<notin> set (run_trace E key_len s)"
proof -
  from setup_keys_Inr [OF assms(1)]
  have t1: "trace s1 = trace s @ [EvLoadUserKey ''alice'', EvLoadUserKey ''bob'']" by blast
  from assms(6) have n: "find_user user_keys
      (c_str (terminate_username (result (read_field_username E)))) = None"
    by (simp add: find_user_def map_of_eq_None_iff)
  have co: "client_opening E user_keys s1
    = (Inl (HandleErrors ''User not registered!''),
       releases [Username] (free_user_keys user_keys
         (alloc Username (ev EvReadField (ev EvGetMtype s1)))))"
    using assms(2-5) n by (simp add: client_opening_def Let_def handle_errors_def)
  have a: "authenticate E key_len s
    = (Inl (HandleErrors ''User not registered!''),
       releases [Username] (free_user_keys user_keys
         (alloc Username (ev EvReadField (ev EvGetMtype s1)))))"
    using assms(1) co by (simp add: authenticate_def)
  have r: "run_trace E key_len s
      = [EvLoadUserKey ''alice'', EvLoadUserKey ''bob'', EvGetMtype, EvReadField]"
    using t1 by (simp add: run_trace_def a)
  from a r show ?thesis by simp
qed

theorem unknown_user_fails_before_gen_keypair_witness:
  "setup_keys (env_alice\<lparr>read_field_username := ok (''carol'' @ [NUL])\<rparr>) init_state
     = (Inr [(''alice'', ''pub-alice''), (''bob'', ''pub-bob'')],
        snd (setup_keys (env_alice\<lparr>read_field_username := ok (''carol'' @ [NUL])\<rparr>)
          init_state))
   \<and> c_str (terminate_username (''carol'' @ [NUL]))
       \<notin> fst ` set [(''alice'', ''pub-alice''), (''bob'', ''pub-bob'')]
   \<and> fst (authenticate (env_alice\<lparr>read_field_username := ok (''carol'' @ [NUL])\<rparr>) 16
        init_state) = Inl (HandleErrors ''User not registered!'')
   \<and> run_trace (env_alice\<lparr>read_field_username := ok (''carol'' @ [NUL])\<rparr>) 16 init_state
       = [EvLoadUserKey ''alice'', EvLoadUserKey ''bob'', EvGetMtype, EvReadField]
   \<and> EvGenKeypair
       \<notin> set (run_trace (env_alice\<lparr>read_field_username := ok (''carol'' @ [NUL])\<rparr>) 16
             init_state)"
proof -
  let ?E = "env_alice\<lparr>read_field_username := ok (''carol'' @ [NUL])\<rparr>"
  have h1: "setup_keys ?E init_state
     = (Inr [(''alice'', ''pub-alice''), (''bob'', ''pub-bob'')],
        snd (setup_keys ?E init_state))"
    by (simp add: server_run prod_eq_iff)
  have h2: "\<not> is_error (get_mtype ?E)" and h3: "result (get_mtype ?E) = AuthStart"
    and h4: "\<not> is_error (read_field_username ?E)"
    and h5: "result (read_field_username ?E) \<noteq> []"
    by (simp_all add: env_alice_def ok_def)
  have h6: "c_str (terminate_username (''carol'' @ [NUL]))
       \<notin> fst ` set [(''alice'', ''pub-alice''), (''bob'', ''pub-bob'')]"
    by (simp add: c_str_def terminate_username_def NUL_def)
  have h6': "c_str (terminate_username (result (read_field_username ?E)))
       \<notin> fst ` set [(''alice'', ''pub-alice''), (''bob'', ''pub-bob'')]"
    using h6 by (simp add: env_alice_def ok_def)
  from unknown_user_fails_before_gen_keypair [OF h1 h2 h3 h4 h5 h6', of 16] h1 h6
  show ?thesis by blast
qed

section \<open>The signed transcript (C5)\<close>

text \<open>
  C5 as stated (the bytes signed end with the username transmitted in AuthStart) fails
  for a username field that does not end in NUL: for the field \<open>aliceX\<close> the third
  chunk passed to the signing context is \<open>alice\<close> with a NUL, the buffer as line 103
  has left it.
\<close>

theorem transmitted_username_is_not_signed:
  "result (read_field_username (env_alice\<lparr>read_field_username := ok ''aliceX''\<rparr>))
     = ''aliceX''
   \<and> EvSignFinal ''sk''
     \<in> set (run_trace (env_alice\<lparr>read_field_username := ok ''aliceX''\<rparr>) 16 init_state)
   \<and> signed_bytes (run_trace (env_alice\<lparr>read_field_username := ok ''aliceX''\<rparr>) 16 init_state)
     = ''Ka'' @ ''Ks'' @ ''alice'' @ [NUL]
   \<and> signed_bytes (run_trace (env_alice\<lparr>read_field_username := ok ''aliceX''\<rparr>) 16 init_state)
     \<noteq> ''Ka'' @ ''Ks'' @ ''aliceX''"
  by (simp add: server_run run_trace_def)

text \<open>
  The three return values of \<open>EVP_SignUpdate\<close> are checked at line 379 through
  \<open>err |= ...\<close> only: when the first call returns 0 and the others 1, \<open>err\<close> is 1 and
  the handshake goes on and returns.  The amended claim below is about the runs in which
  all three calls return 1, and says nothing of the others.
\<close>

lemma sign_update_failure_is_not_detected:
  "fst (authenticate
         (env_alice\<lparr>EVP_SignUpdate := (\<lambda>ctx b n. if ctx = [] then 0 else 1)\<rparr>) 16 init_state)
     = Inr (''alice'' @ [NUL], rev (''placeholder'' @ [NUL]))"
  by (simp add: server_run)

text \<open>
  C5, amended.  In every run in which the three \<open>EVP_SignUpdate\<close> calls return 1 and
  the server signs (\<open>EVP_SignFinal\<close> is called), the calls on the signing context are
  \<open>EVP_SignInit\<close>, the three \<open>EVP_SignUpdate\<close> and \<open>EVP_SignFinal\<close>, in this
  order, and the bytes passed are the client's half key as received (PEM), then the PEM
  of the server's fresh public half, then the \<open>username\<close> buffer, over its whole
  length.  The buffer is the username field of AuthStart with its last byte overwritten
  by NUL (line 103), and the key is the one read from the server's private key file.
\<close>

theorem server_signs_transcript:
  assumes "EvSignFinal sk \<in> set (run_trace E key_len s)"
    and "EVP_SignUpdate E [] (result (read_field_half_key E))
           (length (result (read_field_half_key E))) = 1"
    and "EVP_SignUpdate E [result (read_field_half_key E)]
           (snd (PEM_write_bio_PUBKEY E (gen_keypair E)))
           (length (snd (PEM_write_bio_PUBKEY E (gen_keypair E)))) = 1"
    and "EVP_SignUpdate E
           [result (read_field_half_key E), snd (PEM_write_bio_PUBKEY E (gen_keypair E))]
           (terminate_username (result (read_field_username E)))
           (length (terminate_username (result (read_field_username E)))) = 1"
  shows "signed_bytes (run_trace E key_len s)
      = result (read_field_half_key E)
        @ snd (PEM_write_bio_PUBKEY E (gen_keypair E))
        @ terminate_username (result (read_field_username E))
    \<and> filter is_sign (run_trace E key_len s)
      = [EvSignInit,
         EvSignUpdate (result (read_field_half_key E))
           (length (result (read_field_half_key E))),
         EvSignUpdate (snd (PEM_write_bio_PUBKEY E (gen_keypair E)))
           (length (snd (PEM_write_bio_PUBKEY E (gen_keypair E)))),
         EvSignUpdate (terminate_username (result (read_field_username E)))
           (length (terminate_username (result (read_field_username E)))),
         EvSignFinal sk]
    \<and> PEM_read_PrivateKey E = Some sk
    \<and> terminate_username (result (read_field_username E))
      = (result (read_field_username E))
          [length (result (read_field_username E)) - 1 := NUL]"
  using assms(1) run_trace_prefix(3) [of E key_len s]
  by (auto simp: full_trace_def sign_part_def Let_def prefix_Cons terminate_username_def
        split: option.splits)

theorem server_signs_transcript_witness:
  "EvSignFinal ''sk'' \<in> set (run_trace env_alice 16 init_state)
   \<and> EVP_SignUpdate env_alice [] ''Ka'' 2 = 1
   \<and> EVP_SignUpdate env_alice [''Ka''] ''Ks'' 2 = 1
   \<and> EVP_SignUpdate env_alice [''Ka'', ''Ks''] (''alice'' @ [NUL]) 6 = 1
   \<and> signed_bytes (run_trace env_alice 16 init_state) = ''Ka'' @ ''Ks'' @ ''alice'' @ [NUL]"
proof -
  have h: "EvSignFinal ''sk'' \<in> set (run_trace env_alice 16 init_state)"
    by (simp add: run_trace_def server_run)
  have u: "EVP_SignUpdate env_alice = (\<lambda>ctx b n. 1)"
    by (simp add: env_alice_def)
  from server_signs_transcript [OF h] h show ?thesis
    by (simp add: u) (simp add: env_alice_def ok_def terminate_username_def)
qed

section \<open>Failure exits (C6)\<close>

lemma keypair_release [simp]:
  "r \<noteq> Keypair \<Longrightarrow> Keypair \<in> set (live (release r s)) \<longleftrightarrow> Keypair \<in> set (live s)"
  by (simp add: release_def)

lemma keypair_free_user_keys [simp]:
  "Keypair \<in> set (live (free_user_keys m s)) \<longleftrightarrow> Keypair \<in> set (live s)"
  by (induction m s rule: free_user_keys.induct) simp_all

lemma server_half_key_keypair:
  "tmp_bio s = [] \<Longrightarrow> \<exists>tr. trace (snd (server_half_key E m s)) = trace s @ tr
     \<and> (EvGenKeypair \<in> set tr \<longrightarrow> Keypair \<in> set (live (snd (server_half_key E m s))))"
  by (simp add: server_half_key_def Let_def handle_errors_def)

lemma server_certificate_keypair:
  "Keypair \<in> set (live s) \<Longrightarrow> Keypair \<in> set (live (snd (server_certificate E m s)))"
  by (simp add: server_certificate_def Let_def handle_errors_def split: option.splits)

lemma server_signature_keypair:
  "Keypair \<in> set (live s) \<Longrightarrow> Keypair \<in> set (live (snd (server_signature E m u p sp s)))"
  by (simp add: server_signature_def Let_def handle_errors_def split: option.splits)

lemma finish_keypair:
  "Keypair \<in> set (live s) \<Longrightarrow> Keypair \<in> set (live (snd (finish E u kl s)))"
  by (simp add: finish_def Let_def handle_errors_def)

text \<open>
  C6.  The claim: every failure exit releases all the cryptographic material allocated
  so far.  The ephemeral key pair is released nowhere: every run that has called
  \<open>gen_keypair\<close> (line 201) ends, on each of its failure exits as on its return, with
  the key pair still allocated.
\<close>

theorem ephemeral_keypair_never_released:
  assumes "EvGenKeypair \<in> set (run_trace E key_len s)"
  shows "Keypair \<in> set (live (snd (authenticate E key_len s)))"
proof -
  note g = assms
  obtain r1 s1 where k1: "setup_keys E s = (r1, s1)" by (cases "setup_keys E s")
  show ?thesis
  proof (cases r1)
    case (Inl e)
    with k1 have "snd (authenticate E key_len s) = snd (setup_keys E s)"
      by (simp add: authenticate_def)
    with setup_keys_prefix [of E s] g show ?thesis
      by (auto simp: run_trace_def prefix_Cons)
  next
    case (Inr m)
    with k1 have k1': "setup_keys E s = (Inr m, s1)" by simp
    from setup_keys_Inr [OF k1']
    have t1: "trace s1 = trace s @ [EvLoadUserKey ''alice'', EvLoadUserKey ''bob'']" by blast
    obtain r2 s2 where k2: "client_opening E m s1 = (r2, s2)" by (cases "client_opening E m s1")
    show ?thesis
    proof (cases r2)
      case (Inl e)
      with k1' k2 have "snd (authenticate E key_len s) = snd (client_opening E m s1)"
        by (simp add: authenticate_def)
      with client_opening_prefix [of E m s1] t1 g show ?thesis
        by (auto simp: run_trace_def prefix_Cons)
    next
      case (Inr x)
      obtain u p ck where "x = (u, p, ck)" by (cases x)
      with Inr k2 have k2': "client_opening E m s1 = (Inr (u, p, ck), s2)" by simp
      note f2 = client_opening_Inr [OF k2']
      from f2 t1 have t2: "trace s2 = trace s @ [EvLoadUserKey ''alice'', EvLoadUserKey ''bob'',
         EvGetMtype, EvReadField, EvReadField]" by simp
      from f2 have b2: "tmp_bio s2 = []" by simp
      obtain r3 s3 where k3: "server_half_key E m s2 = (r3, s3)"
        by (cases "server_half_key E m s2")
      show ?thesis
      proof (cases r3)
        case (Inl e)
        with k1' k2' k3 have "snd (authenticate E key_len s) = snd (server_half_key E m s2)"
          by (simp add: authenticate_def)
        with server_half_key_keypair [OF b2, of E m] t2 g show ?thesis
          by (auto simp: run_trace_def)
      next
        case (Inr sp)
        with k3 have k3': "server_half_key E m s2 = (Inr sp, s3)" by simp
        from server_half_key_Inr [OF k3'] have l3: "Keypair \<in> set (live s3)" by simp
        obtain r4 s4 where k4: "server_certificate E m s3 = (r4, s4)"
          by (cases "server_certificate E m s3")
        from server_certificate_keypair [OF l3, of E m] k4
        have l4: "Keypair \<in> set (live s4)" by simp
        obtain r5 s5 where k5: "server_signature E m u p sp s4 = (r5, s5)"
          by (cases "server_signature E m u p sp s4")
        from server_signature_keypair [OF l4, of E m u p sp] k5
        have l5: "Keypair \<in> set (live s5)" by simp
        from finish_keypair [OF l5, of E u key_len]
        have l6: "Keypair \<in> set (live (snd (finish E u key_len s5)))" .
        from k1' k2' k3' k4 k5 l4 l5 l6 show ?thesis
          by (cases r4; cases r5) (simp_all add: authenticate_def)
      qed
    qed
  qed
qed


text \<open>
  Three failure exits, with what is still allocated at each: when \<open>EVP_MD_CTX_new\<close>
  fails (line 361), the memory BIO, the key pair, the copy of the server's half key and
  the certificate; when \<open>send_header\<close> fails (line 176), the memory BIO; when \<open>kdf\<close>
  fails (line 469, marked TODO), everything the run still held.
\<close>

theorem ephemeral_keypair_never_released_witness:
  "EvGenKeypair
     \<in> set (run_trace (env_alice\<lparr>EVP_MD_CTX_new_ok := False\<rparr>) 16 init_state)
   \<and> Keypair
     \<in> set (live (snd (authenticate (env_alice\<lparr>EVP_MD_CTX_new_ok := False\<rparr>) 16 init_state)))
   \<and> fst (authenticate (env_alice\<lparr>EVP_MD_CTX_new_ok := False\<rparr>) 16 init_state)
     = Inl (HandleErrors ''Could not allocate signing context'')
   \<and> live (snd (authenticate (env_alice\<lparr>EVP_MD_CTX_new_ok := False\<rparr>) 16 init_state))
     = [TmpBio, Keypair, ServerHalfKeyPem, ServerCertificate]
   \<and> fst (authenticate (env_alice\<lparr>send_header :=
        (\<lambda>t. \<lparr>is_error = True, error = ''send'', result = ()\<rparr>)\<rparr>) 16 init_state)
     = Inl (HandleErrors ''send'')
   \<and> live (snd (authenticate (env_alice\<lparr>send_header :=
        (\<lambda>t. \<lparr>is_error = True, error = ''send'', result = ()\<rparr>)\<rparr>) 16 init_state))
     = [TmpBio]
   \<and> fst (authenticate (env_alice\<lparr>kdf :=
        (\<lambda>b n l. \<lparr>is_error = True, error = ''kdf'', result = []\<rparr>)\<rparr>) 16 init_state)
     = Inl (HandleErrors ''kdf'')
   \<and> live (snd (authenticate (env_alice\<lparr>kdf :=
        (\<lambda>b n l. \<lparr>is_error = True, error = ''kdf'', result = []\<rparr>)\<rparr>) 16 init_state))
     = [UserKey ''alice'', UserKey ''bob'', Username, TmpBio, ClientHalfKey, Keypair,
        ServerCertificate, ServerPrivateKey, ServerSignature]"
proof -
  have h: "EvGenKeypair
     \<in> set (run_trace (env_alice\<lparr>EVP_MD_CTX_new_ok := False\<rparr>) 16 init_state)"
    by (simp add: run_trace_def server_run)
  note k = ephemeral_keypair_never_released [OF h]
  have "fst (authenticate (env_alice\<lparr>EVP_MD_CTX_new_ok := False\<rparr>) 16 init_state)
     = Inl (HandleErrors ''Could not allocate signing context'')
   \<and> live (snd (authenticate (env_alice\<lparr>EVP_MD_CTX_new_ok := False\<rparr>) 16 init_state))
     = [TmpBio, Keypair, ServerHalfKeyPem, ServerCertificate]"
    by (simp add: server_run)
  moreover
  have "fst (authenticate (env_alice\<lparr>send_header :=
        (\<lambda>t. \<lparr>is_error = True, error = ''send'', result = ()\<rparr>)\<rparr>) 16 init_state)
     = Inl (HandleErrors ''send'')
   \<and> live (snd (authenticate (env_alice\<lparr>send_header :=
        (\<lambda>t. \<lparr>is_error = True, error = ''send'', result = ()\<rparr>)\<rparr>) 16 init_state))
     = [TmpBio]"
    by (simp add: server_run)
  moreover
  have "fst (authenticate (env_alice\<lparr>kdf :=
        (\<lambda>b n l. \<lparr>is_error = True, error = ''kdf'', result = []\<rparr>)\<rparr>) 16 init_state)
     = Inl (HandleErrors ''kdf'')
   \<and> live (snd (authenticate (env_alice\<lparr>kdf :=
        (\<lambda>b n l. \<lparr>is_error = True, error = ''kdf'', result = []\<rparr>)\<rparr>) 16 init_state))
     = [UserKey ''alice'', UserKey ''bob'', Username, TmpBio, ClientHalfKey, Keypair,
        ServerCertificate, ServerPrivateKey, ServerSignature]"
    by (simp add: server_run)
  ultimately show ?thesis using h k by blast
qed

section \<open>The table of registered users (C7)\<close>

lemma authenticate_cases:
  obtains
    (at_setup) e s1 where "setup_keys E s = (Inl e, s1)" "authenticate E kl s = (Inl e, s1)"
  | (at_opening) m s1 e s2 where "setup_keys E s = (Inr m, s1)"
      "client_opening E m s1 = (Inl e, s2)" "authenticate E kl s = (Inl e, s2)"
  | (at_half_key) m s1 u p ck s2 e s3 where "setup_keys E s = (Inr m, s1)"
      "client_opening E m s1 = (Inr (u, p, ck), s2)"
      "server_half_key E m s2 = (Inl e, s3)" "authenticate E kl s = (Inl e, s3)"
  | (at_certificate) m s1 u p ck s2 sp s3 e s4 where "setup_keys E s = (Inr m, s1)"
      "client_opening E m s1 = (Inr (u, p, ck), s2)"
      "server_half_key E m s2 = (Inr sp, s3)"
      "server_certificate E m s3 = (Inl e, s4)" "authenticate E kl s = (Inl e, s4)"
  | (at_signature) m s1 u p ck s2 sp s3 s4 e s5 where "setup_keys E s = (Inr m, s1)"
      "client_opening E m s1 = (Inr (u, p, ck), s2)"
      "server_half_key E m s2 = (Inr sp, s3)"
      "server_certificate E m s3 = (Inr (), s4)"
      "server_signature E m u p sp s4 = (Inl e, s5)" "authenticate E kl s = (Inl e, s5)"
  | (at_finish) m s1 u p ck s2 sp s3 s4 s5 where "setup_keys E s = (Inr m, s1)"
      "client_opening E m s1 = (Inr (u, p, ck), s2)"
      "server_half_key E m s2 = (Inr sp, s3)"
      "server_certificate E m s3 = (Inr (), s4)"
      "server_signature E m u p sp s4 = (Inr (), s5)"
      "authenticate E kl s = finish E u kl s5"
proof -
  obtain r1 s1 where k1: "setup_keys E s = (r1, s1)" by (cases "setup_keys E s")
  show thesis
  proof (cases r1)
    case (Inl e)
    with k1 show thesis
      by (intro at_setup [of e s1]) (simp_all add: authenticate_def)
  next
    case (Inr m)
    note k1 = k1 [unfolded Inr]
    obtain r2 s2 where k2: "client_opening E m s1 = (r2, s2)"
      by (cases "client_opening E m s1")
    show thesis
    proof (cases r2)
      case (Inl e)
      with k1 k2 show thesis
        by (intro at_opening [of m s1 e s2]) (simp_all add: authenticate_def)
    next
      case (Inr x)
      obtain u p ck where x: "x = (u, p, ck)" by (cases x)
      note k2 = k2 [unfolded Inr x]
      obtain r3 s3 where k3: "server_half_key E m s2 = (r3, s3)"
        by (cases "server_half_key E m s2")
      show thesis
      proof (cases r3)
        case (Inl e)
        with k1 k2 k3 show thesis
          by (intro at_half_key [of m s1 u p ck s2 e s3]) (simp_all add: authenticate_def)
      next
        case (Inr sp)
        note k3 = k3 [unfolded Inr]
        obtain r4 s4 where k4: "server_certificate E m s3 = (r4, s4)"
          by (cases "server_certificate E m s3")
        show thesis
        proof (cases r4)
          case (Inl e)
          with k1 k2 k3 k4 show thesis
            by (intro at_certificate [of m s1 u p ck s2 sp s3 e s4])
               (simp_all add: authenticate_def)
        next
          case (Inr y)
          note k4 = k4 [unfolded Inr]
          obtain r5 s5 where k5: "server_signature E m u p sp s4 = (r5, s5)"
            by (cases "server_signature E m u p sp s4")
          show thesis
          proof (cases r5)
            case (Inl e)
            with k1 k2 k3 k4 k5 show thesis
              by (intro at_signature [of m s1 u p ck s2 sp s3 s4 e s5])
                 (simp_all add: authenticate_def)
          next
            case (Inr z)
            with k1 k2 k3 k4 k5 show thesis
              by (intro at_finish [of m s1 u p ck s2 sp s3 s4 s5])
                 (simp_all add: authenticate_def)
          qed
        qed
      qed
    qed
  qed
qed

lemma filter_remove1:
  "filter P (remove1 x xs) = (if P x then remove1 x (filter P xs) else filter P xs)"
  by (induction xs) auto

lemma table_keys_live_simps [simp]:
  "table_keys_live (ev e s) = table_keys_live s"
  "table_keys_live (alloc r s) = table_keys_live s @ (if is_user_key r then [r] else [])"
  "table_keys_live (release r s)
     = (if is_user_key r then remove1 r (table_keys_live s) else table_keys_live s)"
  "table_keys_live (BIO_reset s) = table_keys_live s"
  "table_keys_live (s\<lparr>tmp_bio := b\<rparr>) = table_keys_live s"
  by (simp_all add: table_keys_live_def ev_def alloc_def release_def BIO_reset_def filter_remove1)


lemma setup_keys_frees:
  "table_keys_live s = [] \<Longrightarrow> setup_keys E s = (Inl (HandleErrors msg), s')
     \<Longrightarrow> table_keys_live s' = []"
  by (auto simp: setup_keys_def users_def Let_def handle_errors_def map_insert_def
        split: if_splits option.splits)

lemma client_opening_frees:
  "table_keys_live s = [UserKey ''alice'', UserKey ''bob'']
     \<Longrightarrow> client_opening E [(''alice'', ka), (''bob'', kb)] s = (Inl (HandleErrors msg), s')
     \<Longrightarrow> table_keys_live s' = []"
  by (auto simp: client_opening_def Let_def handle_errors_def split: if_splits option.splits)

lemma server_half_key_frees:
  "table_keys_live s = [UserKey ''alice'', UserKey ''bob'']
     \<Longrightarrow> server_half_key E [(''alice'', ka), (''bob'', kb)] s = (Inl (HandleErrors msg), s')
     \<Longrightarrow> table_keys_live s' = []"
  by (auto simp: server_half_key_def Let_def handle_errors_def split: if_splits)

lemma server_certificate_frees:
  "table_keys_live s = [UserKey ''alice'', UserKey ''bob'']
     \<Longrightarrow> server_certificate E [(''alice'', ka), (''bob'', kb)] s = (Inl (HandleErrors msg), s')
     \<Longrightarrow> table_keys_live s' = []"
  by (auto simp: server_certificate_def Let_def handle_errors_def
        split: if_splits option.splits)

lemma server_signature_frees:
  "table_keys_live s = [UserKey ''alice'', UserKey ''bob'']
     \<Longrightarrow> server_signature E [(''alice'', ka), (''bob'', kb)] u p sp s
           = (Inl (HandleErrors msg), s')
     \<Longrightarrow> \<exists>tr. trace s' = trace s @ tr
           \<and> ((\<forall>sk. EvSignFinal sk \<notin> set tr) \<longrightarrow> table_keys_live s' = [])"
  by (auto simp: server_signature_def Let_def handle_errors_def
        split: if_splits option.splits)

lemma table_keys_live_append:
  "live s' = live s @ rs \<Longrightarrow> filter is_user_key rs = []
     \<Longrightarrow> table_keys_live s' = table_keys_live s"
  by (simp add: table_keys_live_def)


lemma phases_keep_table_keys:
  "client_opening E m s = (Inr x, s') \<Longrightarrow> table_keys_live s' = table_keys_live s"
  "server_half_key E m s = (Inr sp, s') \<Longrightarrow> table_keys_live s' = table_keys_live s"
  "server_certificate E m s = (Inr y, s') \<Longrightarrow> table_keys_live s' = table_keys_live s"
  "server_signature E m u p sp s = (Inr z, s') \<Longrightarrow> table_keys_live s' = table_keys_live s"
  "finish E u kl s = (Inr v, s') \<Longrightarrow> table_keys_live s' = table_keys_live s"
proof -
  show "table_keys_live s' = table_keys_live s" if "client_opening E m s = (Inr x, s')"
  proof -
    obtain a b c where "x = (a, b, c)" by (cases x)
    with that client_opening_Inr [of E m s a b c s'] show ?thesis
      by (simp add: table_keys_live_def)
  qed
  show "table_keys_live s' = table_keys_live s" if "server_half_key E m s = (Inr sp, s')"
    using server_half_key_Inr [OF that] by (simp add: table_keys_live_def)
  show "table_keys_live s' = table_keys_live s" if "server_certificate E m s = (Inr y, s')"
    using server_certificate_Inr [OF that] by (simp add: table_keys_live_def)
  show "table_keys_live s' = table_keys_live s" if "server_signature E m u p sp s = (Inr z, s')"
    using server_signature_Inr [OF that] by (auto simp: table_keys_live_def filter_remove1)
  show "table_keys_live s' = table_keys_live s" if "finish E u kl s = (Inr v, s')"
  proof -
    obtain a b where "v = (a, b)" by (cases v)
    with that finish_Inr [of E u kl s a b s'] show ?thesis
      by (simp add: table_keys_live_def)
  qed
qed

lemma setup_keys_table:
  assumes "setup_keys E s = (Inr m, s1)"
  shows "\<exists>ka kb. m = [(''alice'', ka), (''bob'', kb)]
    \<and> table_keys_live s1 = table_keys_live s @ [UserKey ''alice'', UserKey ''bob'']
    \<and> trace s1 = trace s @ [EvLoadUserKey ''alice'', EvLoadUserKey ''bob'']"
  using setup_keys_Inr [OF assms] by (auto simp: table_keys_live_def)

lemma authenticate_frees_table_keys:
  assumes e: "table_keys_live s = []"
    and run: "authenticate E kl s = (Inl (HandleErrors msg), s')"
    and nf: "\<forall>sk. EvSignFinal sk \<notin> set (run_trace E kl s)"
  shows "table_keys_live s' = []"
proof (cases rule: authenticate_cases [of E s kl])
  case (at_setup e1 s1)
  with run e show ?thesis by (auto dest: setup_keys_frees)
next
  case (at_opening m s1 e1 s2)
  from setup_keys_table [OF at_opening(1)] e obtain ka kb where
    m: "m = [(''alice'', ka), (''bob'', kb)]"
    and l: "table_keys_live s1 = [UserKey ''alice'', UserKey ''bob'']" by auto
  from at_opening run m l show ?thesis by (auto dest: client_opening_frees)
next
  case (at_half_key m s1 u p ck s2 e1 s3)
  from setup_keys_table [OF at_half_key(1)] e obtain ka kb where
    m: "m = [(''alice'', ka), (''bob'', kb)]"
    and l: "table_keys_live s1 = [UserKey ''alice'', UserKey ''bob'']" by auto
  from at_half_key run m l phases_keep_table_keys(1) [OF at_half_key(2)] show ?thesis
    by (auto dest: server_half_key_frees)
next
  case (at_certificate m s1 u p ck s2 sp s3 e1 s4)
  from setup_keys_table [OF at_certificate(1)] e obtain ka kb where
    m: "m = [(''alice'', ka), (''bob'', kb)]"
    and l: "table_keys_live s1 = [UserKey ''alice'', UserKey ''bob'']" by auto
  from at_certificate run m l phases_keep_table_keys(1) [OF at_certificate(2)]
    phases_keep_table_keys(2) [OF at_certificate(3)] show ?thesis
    by (auto dest: server_certificate_frees)
next
  case (at_signature m s1 u p ck s2 sp s3 s4 e1 s5)
  from setup_keys_table [OF at_signature(1)] e obtain ka kb where
    m: "m = [(''alice'', ka), (''bob'', kb)]"
    and l: "table_keys_live s1 = [UserKey ''alice'', UserKey ''bob'']"
    and t1: "trace s1 = trace s @ [EvLoadUserKey ''alice'', EvLoadUserKey ''bob'']" by auto
  from l phases_keep_table_keys(1) [OF at_signature(2)]
    phases_keep_table_keys(2) [OF at_signature(3)]
    phases_keep_table_keys(3) [OF at_signature(4)]
  have l4: "table_keys_live s4 = [UserKey ''alice'', UserKey ''bob'']" by simp
  from t1 client_opening_Inr [OF at_signature(2)] server_half_key_Inr [OF at_signature(3)]
    server_certificate_Inr [OF at_signature(4)]
  obtain X where t4: "trace s4 = trace s @ X" by auto
  from at_signature(5,6) run have k: "server_signature E m u p sp s4
      = (Inl (HandleErrors msg), s')" by simp
  from server_signature_frees [OF l4 k [unfolded m]] obtain tr where
    tr: "trace s' = trace s4 @ tr"
      "(\<forall>sk. EvSignFinal sk \<notin> set tr) \<longrightarrow> table_keys_live s' = []" by blast
  from run tr(1) t4 have "run_trace E kl s = X @ tr" by (simp add: run_trace_def)
  with nf tr(2) show ?thesis by simp
next
  case (at_finish m s1 u p ck s2 sp s3 s4 s5)
  from setup_keys_table [OF at_finish(1)] have
    t1: "trace s1 = trace s @ [EvLoadUserKey ''alice'', EvLoadUserKey ''bob'']" by auto
  from t1 client_opening_Inr [OF at_finish(2)] server_half_key_Inr [OF at_finish(3)]
    server_certificate_Inr [OF at_finish(4)]
  obtain X where t4: "trace s4 = trace s @ X" by auto
  from server_signature_Inr [OF at_finish(5)] obtain sk Y Z where
    "trace s5 = trace s4 @ Y @ EvSignFinal sk # Z"
    by (metis append_Cons append_Nil)
  with t4 at_finish(6) finish_trace [of E u kl s5]
  have "EvSignFinal sk \<in> set (run_trace E kl s)" by (simp add: run_trace_def)
  with nf show ?thesis by blast
qed

lemma authenticate_keeps_table_keys:
  assumes e: "table_keys_live s = []"
    and run: "authenticate E kl s = (Inr (u, k), s')"
  shows "table_keys_live s' = [UserKey ''alice'', UserKey ''bob'']"
proof (cases rule: authenticate_cases [of E s kl])
  case (at_finish m s1 u1 p ck s2 sp s3 s4 s5)
  from setup_keys_table [OF at_finish(1)] e
  have l: "table_keys_live s1 = [UserKey ''alice'', UserKey ''bob'']" by auto
  from at_finish(6) run have "finish E u1 kl s5 = (Inr (u, k), s')" by simp
  from l phases_keep_table_keys(1) [OF at_finish(2)]
    phases_keep_table_keys(2) [OF at_finish(3)]
    phases_keep_table_keys(3) [OF at_finish(4)]
    phases_keep_table_keys(4) [OF at_finish(5)]
    phases_keep_table_keys(5) [OF this]
  show ?thesis by simp
qed (use run in simp_all)


lemma run_goes_past_lookup:
  assumes k1: "setup_keys E s = (Inr m, s1)"
    and k2: "client_opening E m s1 = (Inr (u, p, ck), s2)"
  shows "\<exists>tr. run_trace E kl s
      = [EvLoadUserKey ''alice'', EvLoadUserKey ''bob'', EvGetMtype, EvReadField, EvReadField]
        @ tr"
proof -
  from setup_keys_table [OF k1] client_opening_Inr [OF k2]
  have t2: "trace s2 = trace s @ [EvLoadUserKey ''alice'', EvLoadUserKey ''bob'', EvGetMtype,
      EvReadField, EvReadField]" and b2: "tmp_bio s2 = []" by auto
  show ?thesis
  proof (cases rule: authenticate_cases [of E s kl])
    case (at_setup e s1)
    with k1 show ?thesis by simp
  next
    case (at_opening m s1 e s2)
    with k1 k2 show ?thesis by simp
  next
    case (at_half_key m' s1' u' p' ck' s2' e s3)
    with k1 k2 have "snd (authenticate E kl s) = snd (server_half_key E m s2)" by simp
    with server_half_key_prefix [OF b2, of E m] t2 show ?thesis
      by (auto simp: run_trace_def)
  next
    case (at_certificate m' s1' u' p' ck' s2' sp s3 e s4)
    with k1 k2 have k3: "server_half_key E m s2 = (Inr sp, s3)"
      and a: "snd (authenticate E kl s) = snd (server_certificate E m s3)" by simp_all
    from server_half_key_Inr [OF k3] server_certificate_prefix [of s3 E m] t2 a
    show ?thesis by (auto simp: run_trace_def)
  next
    case (at_signature m' s1' u' p' ck' s2' sp s3 s4 e s5)
    with k1 k2 have k3: "server_half_key E m s2 = (Inr sp, s3)"
      and k4: "server_certificate E m s3 = (Inr (), s4)"
      and a: "snd (authenticate E kl s) = snd (server_signature E m u p sp s4)" by simp_all
    from server_half_key_Inr [OF k3] server_certificate_Inr [OF k4]
      server_signature_prefix [of E m u p sp s4] t2 a
    show ?thesis by (auto simp: run_trace_def)
  next
    case (at_finish m' s1' u' p' ck' s2' sp s3 s4 s5)
    with k1 k2 have k3: "server_half_key E m s2 = (Inr sp, s3)"
      and k4: "server_certificate E m s3 = (Inr (), s4)"
      and k5: "server_signature E m u p sp s4 = (Inr (), s5)"
      and a: "snd (authenticate E kl s) = snd (finish E u kl s5)" by simp_all
    from server_half_key_Inr [OF k3] server_certificate_Inr [OF k4]
      server_signature_Inr [OF k5] finish_trace [of E u kl s5] t2 a
    show ?thesis by (auto simp: run_trace_def)
  qed
qed

lemma lookup_decides:
  assumes k1: "setup_keys E s = (Inr m, s1)"
    and h: "\<not> is_error (get_mtype E)" "result (get_mtype E) = AuthStart"
      "\<not> is_error (read_field_username E)" "result (read_field_username E) \<noteq> []"
  shows "(fst (authenticate E kl s) = Inl (HandleErrors ''User not registered!'')
      \<and> run_trace E kl s
          = [EvLoadUserKey ''alice'', EvLoadUserKey ''bob'', EvGetMtype, EvReadField])
    \<longleftrightarrow> c_str (terminate_username (result (read_field_username E))) \<notin> set users"
proof -
  let ?u = "terminate_username (result (read_field_username E))"
  from setup_keys_table [OF k1] obtain ka kb where
    m: "m = [(''alice'', ka), (''bob'', kb)]"
    and t1: "trace s1 = trace s @ [EvLoadUserKey ''alice'', EvLoadUserKey ''bob'']" by auto
  have f: "find_user m (c_str ?u) = None \<longleftrightarrow> c_str ?u \<notin> set users"
    by (auto simp: m find_user_def users_def)
  obtain r2 s2 where k2: "client_opening E m s1 = (r2, s2)" by (cases "client_opening E m s1")
  show ?thesis
  proof (cases r2)
    case (Inl e)
    with k1 k2 have a: "authenticate E kl s = (Inl e, s2)" by (simp add: authenticate_def)
    from k2 [unfolded Inl] h f t1 show ?thesis
      unfolding a run_trace_def
      by (auto simp: client_opening_def Let_def handle_errors_def a
            split: if_splits option.splits)
  next
    case (Inr x)
    obtain u p ck where "x = (u, p, ck)" by (cases x)
    with Inr k2 have k2': "client_opening E m s1 = (Inr (u, p, ck), s2)" by simp
    from client_opening_Inr [OF k2'] f have "c_str ?u \<in> set users" by auto
    moreover from run_goes_past_lookup [OF k1 k2', of kl]
    have "run_trace E kl s
        \<noteq> [EvLoadUserKey ''alice'', EvLoadUserKey ''bob'', EvGetMtype, EvReadField]"
      by auto
    ultimately show ?thesis by simp
  qed
qed


text \<open>
  C7 as stated (the table is built once at process startup, and no per-connection
  operation constructs it) fails: \<open>authenticate\<close> runs once per connection and calls
  \<open>setup_keys\<close> itself, so after two handshakes in one process the table has been built
  twice.
\<close>

theorem table_built_for_every_connection:
  "table_builds (trace (snd (authenticate env_alice 16
      (snd (authenticate env_alice 16 init_state))))) = 2"
  by (simp add: server_run table_builds_def)


text \<open>
  C7, amended.  Every call of \<open>authenticate\<close> builds the table itself, exactly once and
  as its first action: the run starts with the load of the key of \<open>alice\<close>, no later
  call starts a new build, the only other load is that of \<open>bob\<close>, and when
  \<open>setup_keys\<close> returns, the keys of the table are exactly \<open>alice\<close> and \<open>bob\<close>.
  The lookup of the call is against exactly these keys: a call returns only for a
  username that is \<open>alice\<close> or \<open>bob\<close>, and the lookup of line 111 ends the run as
  unknown user exactly for the others.  For a call that starts with no table key
  allocated: when it returns, the two keys of the table are still allocated; when it ends
  in \<open>handle_errors\<close> before \<open>EVP_SignFinal\<close> has been called, \<open>free_user_keys\<close>
  has freed both.
\<close>

theorem authenticate_builds_and_keeps_table:
  "table_builds (run_trace E key_len s) = 1
   \<and> (\<exists>tr. run_trace E key_len s = EvLoadUserKey ''alice'' # tr
         \<and> (filter is_load tr = [] \<or> filter is_load tr = [EvLoadUserKey ''bob'']))
   \<and> (\<forall>user_keys s1. setup_keys E s = (Inr user_keys, s1) \<longrightarrow> map fst user_keys = users)
   \<and> (\<forall>username key s'. authenticate E key_len s = (Inr (username, key), s') \<longrightarrow>
         c_str username \<in> set users)
   \<and> (\<forall>user_keys s1.
         setup_keys E s = (Inr user_keys, s1)
         \<and> \<not> is_error (get_mtype E) \<and> result (get_mtype E) = AuthStart
         \<and> \<not> is_error (read_field_username E) \<and> result (read_field_username E) \<noteq> [] \<longrightarrow>
         ((fst (authenticate E key_len s) = Inl (HandleErrors ''User not registered!'')
           \<and> run_trace E key_len s
               = [EvLoadUserKey ''alice'', EvLoadUserKey ''bob'', EvGetMtype, EvReadField])
          \<longleftrightarrow> c_str (terminate_username (result (read_field_username E))) \<notin> set users))
   \<and> (table_keys_live s = [] \<longrightarrow>
         (\<forall>username key s'. authenticate E key_len s = (Inr (username, key), s') \<longrightarrow>
            table_keys_live s' = [UserKey ''alice'', UserKey ''bob''])
       \<and> (\<forall>msg s'. authenticate E key_len s = (Inl (HandleErrors msg), s')
              \<and> (\<forall>sk. EvSignFinal sk \<notin> set (run_trace E key_len s)) \<longrightarrow>
            table_keys_live s' = []))"
proof -
  have a: "table_builds (run_trace E key_len s) = 1
   \<and> (\<exists>tr. run_trace E key_len s = EvLoadUserKey ''alice'' # tr
         \<and> (filter is_load tr = [] \<or> filter is_load tr = [EvLoadUserKey ''bob'']))"
    using run_trace_prefix(2,3) [of E key_len s]
    by (auto simp: full_trace_def sign_part_def Let_def prefix_Cons table_builds_def users_def
          split: option.splits)
  have b: "\<forall>user_keys s1. setup_keys E s = (Inr user_keys, s1)
      \<longrightarrow> map fst user_keys = users"
    by (auto dest!: setup_keys_Inr simp: users_def)
  have c: "c_str username \<in> set users"
    if "authenticate E key_len s = (Inr (username, key), s')" for username key s'
  proof -
    from that obtain ka kb where
      "find_user [(''alice'', ka), (''bob'', kb)] (c_str username) \<noteq> None"
      by (elim authenticate_Inr) blast
    then show ?thesis
      by (auto simp: find_user_def users_def split: if_splits)
  qed
  from a b c lookup_decides [of E s _ _ key_len]
    authenticate_keeps_table_keys [of s E key_len]
    authenticate_frees_table_keys [of s E key_len]
  show ?thesis by blast
qed


theorem authenticate_builds_and_keeps_table_witness:
  "setup_keys env_alice init_state
     = (Inr [(''alice'', ''pub-alice''), (''bob'', ''pub-bob'')],
        snd (setup_keys env_alice init_state))
   \<and> map fst [(''alice'', ''pub-alice''), (''bob'', ''pub-bob'')] = users
   \<and> table_builds (run_trace env_alice 16 init_state) = 1
   \<and> table_keys_live init_state = []
   \<and> authenticate env_alice 16 init_state
     = (Inr (''alice'' @ [NUL], rev (''placeholder'' @ [NUL])),
        snd (authenticate env_alice 16 init_state))
   \<and> c_str (''alice'' @ [NUL]) \<in> set users
   \<and> table_keys_live (snd (authenticate env_alice 16 init_state))
     = [UserKey ''alice'', UserKey ''bob'']
   \<and> authenticate (env_alice\<lparr>read_field_username := ok (''carol'' @ [NUL])\<rparr>) 16 init_state
     = (Inl (HandleErrors ''User not registered!''),
        snd (authenticate (env_alice\<lparr>read_field_username := ok (''carol'' @ [NUL])\<rparr>) 16
          init_state))
   \<and> (\<forall>sk. EvSignFinal sk
         \<notin> set (run_trace (env_alice\<lparr>read_field_username := ok (''carol'' @ [NUL])\<rparr>) 16
               init_state))
   \<and> table_keys_live
       (snd (authenticate (env_alice\<lparr>read_field_username := ok (''carol'' @ [NUL])\<rparr>) 16
          init_state)) = []"
proof -
  let ?C = "env_alice\<lparr>read_field_username := ok (''carol'' @ [NUL])\<rparr>"
  have h: "setup_keys env_alice init_state
     = (Inr [(''alice'', ''pub-alice''), (''bob'', ''pub-bob'')],
        snd (setup_keys env_alice init_state))"
    by (simp add: server_run prod_eq_iff)
  have e: "table_keys_live init_state = []"
    by (simp add: table_keys_live_def init_state_def)
  have c: "authenticate ?C 16 init_state
     = (Inl (HandleErrors ''User not registered!''), snd (authenticate ?C 16 init_state))"
    by (simp add: server_run prod_eq_iff)
  have n: "\<forall>sk. EvSignFinal sk \<notin> set (run_trace ?C 16 init_state)"
    by (simp add: run_trace_def server_run)
  from authenticate_builds_and_keeps_table [of env_alice 16 init_state] h e env_alice_run
  have a: "map fst [(''alice'', ''pub-alice''), (''bob'', ''pub-bob'')] = users
   \<and> table_builds (run_trace env_alice 16 init_state) = 1
   \<and> c_str (''alice'' @ [NUL]) \<in> set users
   \<and> table_keys_live (snd (authenticate env_alice 16 init_state))
     = [UserKey ''alice'', UserKey ''bob'']"
    by blast
  from authenticate_builds_and_keeps_table [of ?C 16 init_state] e c n
  have b: "table_keys_live (snd (authenticate ?C 16 init_state)) = []"
    by blast
  from h e env_alice_run c n a b show ?thesis by blast
qed

section \<open>The NUL written into the username (C10)\<close>

lemma terminate_username_simps [simp]:
  "length (terminate_username u) = length u"
  "terminate_username (terminate_username u) = terminate_username u"
  "terminate_username u = [] \<longleftrightarrow> u = []"
  by (simp_all add: terminate_username_def)

lemma last_terminate_username:
  "u \<noteq> [] \<Longrightarrow> last (terminate_username u) = NUL"
  by (simp add: terminate_username_def last_list_update)

lemma terminate_username_butlast:
  "u \<noteq> [] \<Longrightarrow> terminate_username u = butlast u @ [NUL]"
  by (induction u rule: rev_induct) (simp_all add: terminate_username_def)

lemma client_opening_terminated:
  "client_opening (E\<lparr>read_field_username := r\<lparr>result := terminate_username (result r)\<rparr>\<rparr>) m s
     = client_opening (E\<lparr>read_field_username := r\<rparr>) m s"
  by (simp add: client_opening_def Let_def split: option.splits)

lemma setup_keys_loop_ignores_username_field:
  "setup_keys_loop (E\<lparr>read_field_username := r\<rparr>) us m s = setup_keys_loop E us m s"
  by (induction us arbitrary: m s) (simp_all add: Let_def split: option.splits)

lemma phases_ignore_username_field:
  "setup_keys (E\<lparr>read_field_username := r\<rparr>) = setup_keys E"
  "server_half_key (E\<lparr>read_field_username := r\<rparr>) = server_half_key E"
  "server_certificate (E\<lparr>read_field_username := r\<rparr>) = server_certificate E"
  "server_signature (E\<lparr>read_field_username := r\<rparr>) = server_signature E"
  "finish (E\<lparr>read_field_username := r\<rparr>) = finish E"
  by (simp_all add: fun_eq_iff setup_keys_def setup_keys_loop_ignores_username_field
        server_half_key_def server_certificate_def server_signature_def finish_def Let_def
        split: option.splits)

text \<open>
  C10.  For a username field of length at least 1, line 103 overwrites its last byte
  with NUL before anything else reads the buffer: the whole run is the run on the
  overwritten buffer, and when \<open>authenticate\<close> returns, the username it returns is the
  received field with its last byte replaced by NUL, the lookup has found the C string
  of that buffer in the table, and that buffer (over the received length) is the third
  chunk of the signed transcript.
\<close>

theorem username_terminated_before_use:
  assumes "result (read_field_username E) \<noteq> []"
  shows "authenticate E key_len s
       = authenticate (E\<lparr>read_field_username := (read_field_username E)
            \<lparr>result := terminate_username (result (read_field_username E))\<rparr>\<rparr>) key_len s
    \<and> (\<forall>username key s'. authenticate E key_len s = (Inr (username, key), s') \<longrightarrow>
          username = butlast (result (read_field_username E)) @ [NUL]
        \<and> c_str username \<in> set users
        \<and> EvSignUpdate username (length (result (read_field_username E)))
            \<in> set (run_trace E key_len s))"
proof -
  let ?r = "read_field_username E"
  have "E = E\<lparr>read_field_username := ?r\<rparr>" by simp
  then have "authenticate E key_len s = authenticate (E\<lparr>read_field_username := ?r\<rparr>) key_len s"
    by simp
  also have "\<dots> = authenticate (E\<lparr>read_field_username :=
      ?r\<lparr>result := terminate_username (result ?r)\<rparr>\<rparr>) key_len s"
    unfolding authenticate_def phases_ignore_username_field client_opening_terminated ..
  finally have a: "authenticate E key_len s = authenticate (E\<lparr>read_field_username :=
      ?r\<lparr>result := terminate_username (result ?r)\<rparr>\<rparr>) key_len s" .
  have b: "username = butlast (result ?r) @ [NUL] \<and> c_str username \<in> set users
        \<and> EvSignUpdate username (length (result ?r)) \<in> set (run_trace E key_len s)"
    if run: "authenticate E key_len s = (Inr (username, key), s')" for username key s'
  proof -
    from run_trace_Inr [OF run] have r: "run_trace E key_len s = full_trace E key_len"
      and "\<exists>c sk. PEM_read_X509 E = Some c \<and> PEM_read_PrivateKey E = Some sk" by blast+
    then obtain c sk where c: "PEM_read_X509 E = Some c" "PEM_read_PrivateKey E = Some sk"
      by blast
    from run obtain ka kb where
      u: "username = terminate_username (result ?r)" and
      f: "find_user [(''alice'', ka), (''bob'', kb)] (c_str username) \<noteq> None"
      by (elim authenticate_Inr) blast
    from f have "c_str username \<in> set users"
      by (auto simp: find_user_def users_def split: if_splits)
    moreover from u assms have "username = butlast (result ?r) @ [NUL]"
      by (simp add: terminate_username_butlast)
    moreover have "EvSignUpdate username (length (result ?r)) \<in> set (full_trace E key_len)"
      using c u by (simp add: full_trace_def sign_part_def Let_def)
    ultimately show ?thesis using r by simp
  qed
  from a b show ?thesis by blast
qed


theorem username_terminated_before_use_witness:
  "result (read_field_username (env_alice\<lparr>read_field_username := ok ''aliceX''\<rparr>)) \<noteq> []
   \<and> authenticate (env_alice\<lparr>read_field_username := ok ''aliceX''\<rparr>) 16 init_state
     = (Inr (''alice'' @ [NUL], rev (''placeholder'' @ [NUL])),
        snd (authenticate (env_alice\<lparr>read_field_username := ok ''aliceX''\<rparr>) 16 init_state))
   \<and> ''alice'' @ [NUL] = butlast ''aliceX'' @ [NUL]
   \<and> c_str (''alice'' @ [NUL]) \<in> set users
   \<and> EvSignUpdate (''alice'' @ [NUL]) 6
       \<in> set (run_trace (env_alice\<lparr>read_field_username := ok ''aliceX''\<rparr>) 16 init_state)"
proof -
  let ?E = "env_alice\<lparr>read_field_username := ok ''aliceX''\<rparr>"
  have h: "result (read_field_username ?E) \<noteq> []"
    by (simp add: ok_def)
  have r: "authenticate ?E 16 init_state
     = (Inr (''alice'' @ [NUL], rev (''placeholder'' @ [NUL])),
        snd (authenticate ?E 16 init_state))"
    by (simp add: server_run prod_eq_iff)
  have e: "result (read_field_username ?E) = ''aliceX''"
    by (simp add: ok_def)
  from username_terminated_before_use [OF h, of 16 init_state] r
  have "''alice'' @ [NUL] = butlast (result (read_field_username ?E)) @ [NUL]
      \<and> c_str (''alice'' @ [NUL]) \<in> set users
      \<and> EvSignUpdate (''alice'' @ [NUL]) (length (result (read_field_username ?E)))
          \<in> set (run_trace ?E 16 init_state)"
    by blast
  with h r show ?thesis
    unfolding e by (simp add: eval_nat_numeral)
qed

section \<open>Basic facts about the client model\<close>

lemma cev_simps [simp]:
  "ctrace (cev e s) = ctrace s @ [e]" "seq_num (cev e s) = seq_num s"
  by (simp_all add: cev_def)

lemma rename_Inl:
  "rename E key s = (Inl e, s') \<Longrightarrow>
     seq_num s' = seq_num s \<and> (\<exists>tr. ctrace s' = ctrace s @ tr \<and> CvIncSeqnum \<notin> set tr)"
  by (simp add: rename_def Let_def handle_errors_def split: if_splits option.splits) auto


lemmas rename_reading =
  aead_calls_def aad_ctx_def payload_calls_def f_old_def f_new_def ct_old_def ct_new_def
  ct_final_def ct_buffer_def tag_out_def

lemma rename_Inr:
  assumes "rename E key s = (Inr x, s')"
  shows "seq_num s' = inc_seqnum E (seq_num s)
    \<and> (\<exists>b1 b2 b3 tag.
          write_at (ct_buffer E) 0 (ct_old E key (seq_num s)) = Some b1
        \<and> write_at b1 0 (ct_new E key (seq_num s)) = Some b2
        \<and> write_at b2 (length (ct_new E key (seq_num s))) (ct_final E key (seq_num s)) = Some b3
        \<and> write_at (new_uchar E (TAG_LEN E)) 0 (tag_out E key (seq_num s)) = Some tag
        \<and> ctrace s' = ctrace s
            @ CvSendHeader RenameReq (seq_num s) (result (gen_iv E)) (get_iv_len E)
            # map CvEvp (aead_calls E key (seq_num s))
            @ [CvSendField
                 (client_flen_cast E (length (ct_old E key (seq_num s))
                    + length (ct_new E key (seq_num s)) + length (ct_final E key (seq_num s))))
                 (take (client_flen_cast E (length (ct_old E key (seq_num s))
                    + length (ct_new E key (seq_num s)) + length (ct_final E key (seq_num s)))) b3),
               CvSendField (client_flen_cast E (TAG_LEN E))
                 (take (client_flen_cast E (TAG_LEN E)) tag),
               CvIncSeqnum])"
  using assms
  by (simp add: rename_def Let_def handle_errors_def rename_reading
        split: if_splits option.splits) auto

lemma rename_Inr_sent:
  assumes "rename E key s = (Inr x, s')"
  shows "\<not> is_error (gen_iv E)
    \<and> \<not> is_error (send_header_seq E RenameReq (seq_num s) (result (gen_iv E)) (get_iv_len E))
    \<and> (\<exists>n ct m tag.
          ctrace s' = ctrace s
            @ CvSendHeader RenameReq (seq_num s) (result (gen_iv E)) (get_iv_len E)
            # map CvEvp (aead_calls E key (seq_num s))
            @ [CvSendField n ct, CvSendField m tag, CvIncSeqnum]
        \<and> \<not> is_error (client_send_field E n ct)
        \<and> \<not> is_error (client_send_field E m tag))"
  using assms
  by (simp add: rename_def Let_def handle_errors_def rename_reading
        split: if_splits option.splits) auto

lemma rename_evp_prefix:
  assumes "rename E key s = (r, s')"
  shows "\<exists>tr. ctrace s' = ctrace s @ tr
    \<and> prefix (filter is_evp tr) (map CvEvp (aead_calls E key (seq_num s)))
    \<and> ((\<exists>n b. CvSendField n b \<in> set tr)
          \<longrightarrow> filter is_evp tr = map CvEvp (aead_calls E key (seq_num s)))"
  using assms
  by (simp add: rename_def Let_def handle_errors_def rename_reading
        split: if_splits option.splits) auto

lemma overwritten_buffer:
  assumes "write_at H 0 o1 = Some b1" and "write_at b1 0 o2 = Some b2"
    and "write_at b2 (length o2) o3 = Some b3" and "length o1 \<le> length o2"
  shows "b3 = o2 @ o3 @ drop (length o2 + length o3) H"
  using assms by (auto simp: write_at_def add.commute split: if_splits)


lemma rename_trace_eq:
  "rename E key s = (r, s') \<Longrightarrow> ctrace s' = ctrace s @ tr \<Longrightarrow> rename_trace E key s = tr"
  by (simp add: rename_trace_def)

lemmas rename_run =
  rename_def rename_trace_def cenv_rename_def cstate0_def ok_def pad_def Let_def cev_def
  handle_errors_def new_uchar_def write_at_def NUL_def

section \<open>The ciphertext of a rename request (C3)\<close>

text \<open>
  C3.  The claim: decoding an encoded frame gives back the fields, so the ciphertext
  sent for a rename request decrypts to both file names.  The encode path in
  \<open>rename\<close> does not send the ciphertext of the first file name at all: the second
  \<open>EVP_EncryptUpdate\<close> writes at \<open>ct\<close>, over the output of the first (line 91),
  while \<open>ct_len\<close> counts both.  Whenever \<open>rename\<close> returns and the first output is
  not longer than the second, the field sent is the ciphertext of \<open>f_new\<close>, then what
  \<open>EVP_EncryptFinal\<close> wrote, then bytes of the buffer that were never written.  In the
  concrete run below the field is the same for the old names \<open>old.txt\<close> and
  \<open>abc.txt\<close>.
\<close>

theorem rename_sends_second_ciphertext_only:
  assumes "rename E key s = (Inr x, s')"
    and "length (ct_old E key (seq_num s)) \<le> length (ct_new E key (seq_num s))"
  shows "\<exists>n. CvSendField n
           (take n (ct_new E key (seq_num s) @ ct_final E key (seq_num s)
              @ drop (length (ct_new E key (seq_num s)) + length (ct_final E key (seq_num s)))
                  (new_uchar E (FNAME_MAX_LEN E * 2 + get_block_size E))))
         \<in> set (rename_trace E key s)
       \<and> n = client_flen_cast E (length (ct_old E key (seq_num s))
               + length (ct_new E key (seq_num s)) + length (ct_final E key (seq_num s)))"
proof -
  from rename_Inr [OF assms(1)] obtain b1 b2 b3 tag where
    w: "write_at (ct_buffer E) 0 (ct_old E key (seq_num s)) = Some b1"
       "write_at b1 0 (ct_new E key (seq_num s)) = Some b2"
       "write_at b2 (length (ct_new E key (seq_num s))) (ct_final E key (seq_num s)) = Some b3"
    and t: "ctrace s' = ctrace s
            @ CvSendHeader RenameReq (seq_num s) (result (gen_iv E)) (get_iv_len E)
            # map CvEvp (aead_calls E key (seq_num s))
            @ [CvSendField
                 (client_flen_cast E (length (ct_old E key (seq_num s))
                    + length (ct_new E key (seq_num s)) + length (ct_final E key (seq_num s))))
                 (take (client_flen_cast E (length (ct_old E key (seq_num s))
                    + length (ct_new E key (seq_num s)) + length (ct_final E key (seq_num s)))) b3),
               CvSendField (client_flen_cast E (TAG_LEN E))
                 (take (client_flen_cast E (TAG_LEN E)) tag),
               CvIncSeqnum]"
    by blast
  from overwritten_buffer [OF w assms(2)]
  have b3: "b3 = ct_new E key (seq_num s) @ ct_final E key (seq_num s)
      @ drop (length (ct_new E key (seq_num s)) + length (ct_final E key (seq_num s)))
          (new_uchar E (FNAME_MAX_LEN E * 2 + get_block_size E))"
    by (simp add: ct_buffer_def)
  from rename_trace_eq [OF assms(1) t] b3 show ?thesis
    by simp
qed

theorem rename_sends_second_ciphertext_only_witness:
  "rename cenv_rename ''key'' cstate0 = (Inr (), snd (rename cenv_rename ''key'' cstate0))
   \<and> length (ct_old cenv_rename ''key'' 4) \<le> length (ct_new cenv_rename ''key'' 4)
   \<and> f_old cenv_rename = ''old.txt'' @ [NUL] \<and> f_new cenv_rename = ''new.txt'' @ [NUL]
   \<and> ct_old cenv_rename ''key'' 4 = NUL # ''txt.dlo''
   \<and> ct_new cenv_rename ''key'' 4 = NUL # ''txt.wen''
   \<and> CvSendField 16 (NUL # ''txt.wen'' @ ''????????'')
       \<in> set (rename_trace cenv_rename ''key'' cstate0)
   \<and> CvSendField 16 (NUL # ''txt.wen'' @ ''????????'')
       \<in> set (rename_trace
             (cenv_rename\<lparr>getline := (\<lambda>n. if n = 0 then ''abc.txt'' else ''new.txt'')\<rparr>)
             ''key'' cstate0)"
proof -
  have other: "CvSendField 16 (NUL # ''txt.wen'' @ ''????????'')
       \<in> set (rename_trace
             (cenv_rename\<lparr>getline := (\<lambda>n. if n = 0 then ''abc.txt'' else ''new.txt'')\<rparr>)
             ''key'' cstate0)"
    by (simp add: rename_run upt_rec eval_nat_numeral)
  have h1: "rename cenv_rename ''key'' cstate0
      = (Inr (), snd (rename cenv_rename ''key'' cstate0))"
    by (simp add: rename_run prod_eq_iff)
  have s: "seq_num cstate0 = 4" by (simp add: cstate0_def)
  have o: "ct_old cenv_rename ''key'' 4 = NUL # ''txt.dlo''"
    "ct_new cenv_rename ''key'' 4 = NUL # ''txt.wen''"
    "ct_final cenv_rename ''key'' 4 = []"
    "f_old cenv_rename = ''old.txt'' @ [NUL]" "f_new cenv_rename = ''new.txt'' @ [NUL]"
    by (simp_all add: rename_reading cenv_rename_def pad_def NUL_def)
  have h2: "length (ct_old cenv_rename ''key'' (seq_num cstate0))
      \<le> length (ct_new cenv_rename ''key'' (seq_num cstate0))"
    by (simp add: s o)
  have c: "client_flen_cast cenv_rename = (\<lambda>n. n)" "FNAME_MAX_LEN cenv_rename = 8"
    "get_block_size cenv_rename = 4" "heap cenv_rename = (\<lambda>a. CHR ''?'')"
    by (simp_all add: cenv_rename_def)
  have ol: "length (ct_old cenv_rename ''key'' 4) = 8"
    "length (ct_new cenv_rename ''key'' 4) = 8" "length (ct_final cenv_rename ''key'' 4) = 0"
    by (simp_all add: o)
  from rename_sends_second_ciphertext_only [OF h1 h2]
  have "CvSendField 16 (take 16 (ct_new cenv_rename ''key'' 4 @ ct_final cenv_rename ''key'' 4
          @ drop 8 (new_uchar cenv_rename 20)))
       \<in> set (rename_trace cenv_rename ''key'' cstate0)"
    unfolding s ol c by simp
  then have "CvSendField 16 (NUL # ''txt.wen'' @ ''????????'')
       \<in> set (rename_trace cenv_rename ''key'' cstate0)"
    by (simp add: o c new_uchar_def upt_rec)
  with h1 h2 o other show ?thesis by (simp add: s)
qed


section \<open>Message type and sequence number as associated data (C8)\<close>

text \<open>
  The calls \<open>rename\<close> makes on the cipher context.  In every run they are a front part
  of: \<open>EVP_EncryptInit\<close>; \<open>EVP_EncryptUpdate\<close> with no output buffer on the
  message-type byte; the same on the bytes of the sequence number; \<open>EVP_EncryptUpdate\<close>
  on \<open>f_old\<close> and on \<open>f_new\<close>; \<open>EVP_EncryptFinal\<close>; the tag request.  A run that
  sends a field has made all of them, and when \<open>rename\<close> returns, the tag field it
  has sent is what the library returned for the context with this history.
\<close>

lemma rename_calls_on_cipher_context:
  "prefix (filter is_evp (rename_trace E key s))
     (map CvEvp
       [EncryptInit key (result (gen_iv E)),
        AadUpdate [mtype_to_uc E RenameReq] 1,
        AadUpdate (seqnum_to_uc E (seq_num s)) (sizeof_seqnum E),
        EncryptUpdate (f_old E) (FNAME_MAX_LEN E),
        EncryptUpdate (f_new E) (FNAME_MAX_LEN E),
        EncryptFinal,
        GetTag (TAG_LEN E)])
   \<and> ((\<exists>n b. CvSendField n b \<in> set (rename_trace E key s)) \<longrightarrow>
        filter is_evp (rename_trace E key s)
        = map CvEvp
           [EncryptInit key (result (gen_iv E)),
            AadUpdate [mtype_to_uc E RenameReq] 1,
            AadUpdate (seqnum_to_uc E (seq_num s)) (sizeof_seqnum E),
            EncryptUpdate (f_old E) (FNAME_MAX_LEN E),
            EncryptUpdate (f_new E) (FNAME_MAX_LEN E),
            EncryptFinal,
            GetTag (TAG_LEN E)])
   \<and> (fst (rename E key s) = Inr () \<longrightarrow>
        (\<exists>tag. write_at (new_uchar E (TAG_LEN E)) 0
                  (snd (EVP_CTRL_AEAD_GET_TAG E
                     [EncryptInit key (result (gen_iv E)),
                      AadUpdate [mtype_to_uc E RenameReq] 1,
                      AadUpdate (seqnum_to_uc E (seq_num s)) (sizeof_seqnum E),
                      EncryptUpdate (f_old E) (FNAME_MAX_LEN E),
                      EncryptUpdate (f_new E) (FNAME_MAX_LEN E),
                      EncryptFinal]
                     (TAG_LEN E))) = Some tag
          \<and> CvSendField (client_flen_cast E (TAG_LEN E))
                (take (client_flen_cast E (TAG_LEN E)) tag)
              \<in> set (rename_trace E key s)))"
proof -
  obtain r s' where run: "rename E key s = (r, s')" by (cases "rename E key s")
  from rename_evp_prefix [OF run] obtain tr where
    tr: "ctrace s' = ctrace s @ tr"
      "prefix (filter is_evp tr) (map CvEvp (aead_calls E key (seq_num s)))"
      "(\<exists>n b. CvSendField n b \<in> set tr)
          \<longrightarrow> filter is_evp tr = map CvEvp (aead_calls E key (seq_num s))"
    by blast
  from rename_trace_eq [OF run tr(1)] have e: "rename_trace E key s = tr" .
  have a: "aead_calls E key (seq_num s)
      = [EncryptInit key (result (gen_iv E)),
         AadUpdate [mtype_to_uc E RenameReq] 1,
         AadUpdate (seqnum_to_uc E (seq_num s)) (sizeof_seqnum E),
         EncryptUpdate (f_old E) (FNAME_MAX_LEN E),
         EncryptUpdate (f_new E) (FNAME_MAX_LEN E),
         EncryptFinal,
         GetTag (TAG_LEN E)]"
    by (simp add: aead_calls_def aad_ctx_def payload_calls_def)
  have t: "\<exists>tag. write_at (new_uchar E (TAG_LEN E)) 0
                  (snd (EVP_CTRL_AEAD_GET_TAG E
                     [EncryptInit key (result (gen_iv E)),
                      AadUpdate [mtype_to_uc E RenameReq] 1,
                      AadUpdate (seqnum_to_uc E (seq_num s)) (sizeof_seqnum E),
                      EncryptUpdate (f_old E) (FNAME_MAX_LEN E),
                      EncryptUpdate (f_new E) (FNAME_MAX_LEN E),
                      EncryptFinal]
                     (TAG_LEN E))) = Some tag
          \<and> CvSendField (client_flen_cast E (TAG_LEN E))
                (take (client_flen_cast E (TAG_LEN E)) tag)
              \<in> set (rename_trace E key s)"
    if "fst (rename E key s) = Inr ()"
  proof -
    from that run have "rename E key s = (Inr (), s')" by simp
    from rename_Inr [OF this] obtain b3 tag where
      w: "write_at (new_uchar E (TAG_LEN E)) 0 (tag_out E key (seq_num s)) = Some tag"
      and c: "ctrace s' = ctrace s
            @ CvSendHeader RenameReq (seq_num s) (result (gen_iv E)) (get_iv_len E)
            # map CvEvp (aead_calls E key (seq_num s))
            @ [CvSendField
                 (client_flen_cast E (length (ct_old E key (seq_num s))
                    + length (ct_new E key (seq_num s)) + length (ct_final E key (seq_num s))))
                 (take (client_flen_cast E (length (ct_old E key (seq_num s))
                    + length (ct_new E key (seq_num s)) + length (ct_final E key (seq_num s)))) b3),
               CvSendField (client_flen_cast E (TAG_LEN E))
                 (take (client_flen_cast E (TAG_LEN E)) tag),
               CvIncSeqnum]"
      by blast
    from rename_trace_eq [OF run c] have "CvSendField (client_flen_cast E (TAG_LEN E))
            (take (client_flen_cast E (TAG_LEN E)) tag) \<in> set (rename_trace E key s)"
      by simp
    with w show ?thesis
      by (auto simp: tag_out_def aad_ctx_def payload_calls_def)
  qed
  from tr(2,3) t show ?thesis
    unfolding e a by blast
qed

text \<open>
  C8.  The claim: for every message the encode path produces, the message type and the
  sequence number have gone into the cipher as authenticated associated data, so that
  tampering with them invalidates the tag.  The code makes the two calls, but checks
  their return values through \<open>err |= ...\<close> and \<open>err != 1\<close> only (lines 63 to 69):
  when the call on the message type returns 0 (failure) and the call on the sequence
  number returns 1, \<open>err\<close> is 1, and \<open>rename\<close> goes on exactly as if both had
  succeeded: the whole run, result and calls, is the run in which every such call
  returns 1, so when the other steps succeed the frame is sent and the counter
  incremented.
\<close>

theorem rename_ignores_failed_associated_data:
  assumes "EVP_EncryptUpdate_aad E [EncryptInit key (result (gen_iv E))]
             [mtype_to_uc E RenameReq] 1 = 0"
    and "EVP_EncryptUpdate_aad E
           [EncryptInit key (result (gen_iv E)), AadUpdate [mtype_to_uc E RenameReq] 1]
           (seqnum_to_uc E (seq_num s)) (sizeof_seqnum E) = 1"
  shows "rename E key s = rename (E\<lparr>EVP_EncryptUpdate_aad := (\<lambda>ctx b n. 1)\<rparr>) key s"
  using assms
  by (simp add: rename_def Let_def new_uchar_def split: option.splits)

theorem rename_ignores_failed_associated_data_witness:
  "EVP_EncryptUpdate_aad
     (cenv_rename\<lparr>EVP_EncryptUpdate_aad :=
        (\<lambda>ctx b n. if ctx = [EncryptInit ''key'' ''iv''] then 0 else 1)\<rparr>)
     [EncryptInit ''key'' ''iv''] ''R'' 1 = 0
   \<and> EVP_EncryptUpdate_aad
     (cenv_rename\<lparr>EVP_EncryptUpdate_aad :=
        (\<lambda>ctx b n. if ctx = [EncryptInit ''key'' ''iv''] then 0 else 1)\<rparr>)
     [EncryptInit ''key'' ''iv'', AadUpdate ''R'' 1] ''||||'' 4 = 1
   \<and> fst (rename
        (cenv_rename\<lparr>EVP_EncryptUpdate_aad :=
           (\<lambda>ctx b n. if ctx = [EncryptInit ''key'' ''iv''] then 0 else 1)\<rparr>)
        ''key'' cstate0) = Inr ()
   \<and> seq_num (snd (rename
        (cenv_rename\<lparr>EVP_EncryptUpdate_aad :=
           (\<lambda>ctx b n. if ctx = [EncryptInit ''key'' ''iv''] then 0 else 1)\<rparr>)
        ''key'' cstate0)) = 5
   \<and> CvSendField 4 ''TTTT''
     \<in> set (rename_trace
        (cenv_rename\<lparr>EVP_EncryptUpdate_aad :=
           (\<lambda>ctx b n. if ctx = [EncryptInit ''key'' ''iv''] then 0 else 1)\<rparr>)
        ''key'' cstate0)"
proof -
  let ?E = "cenv_rename\<lparr>EVP_EncryptUpdate_aad :=
        (\<lambda>ctx b n. if ctx = [EncryptInit ''key'' ''iv''] then 0 else 1)\<rparr>"
  have v: "result (gen_iv ?E) = ''iv''" "mtype_to_uc ?E RenameReq = CHR ''R''"
    "seqnum_to_uc ?E (seq_num cstate0) = ''||||''" "sizeof_seqnum ?E = 4"
    by (simp_all add: cenv_rename_def cstate0_def ok_def eval_nat_numeral)
  have h1: "EVP_EncryptUpdate_aad ?E [EncryptInit ''key'' ''iv''] ''R'' 1 = 0"
    and h2: "EVP_EncryptUpdate_aad ?E [EncryptInit ''key'' ''iv'', AadUpdate ''R'' 1]
       ''||||'' 4 = 1"
    by simp_all
  have h1': "EVP_EncryptUpdate_aad ?E [EncryptInit ''key'' (result (gen_iv ?E))]
       [mtype_to_uc ?E RenameReq] 1 = 0"
    unfolding v by (rule h1)
  have h2': "EVP_EncryptUpdate_aad ?E
       [EncryptInit ''key'' (result (gen_iv ?E)), AadUpdate [mtype_to_uc ?E RenameReq] 1]
       (seqnum_to_uc ?E (seq_num cstate0)) (sizeof_seqnum ?E) = 1"
    unfolding v by (rule h2)
  have same: "?E\<lparr>EVP_EncryptUpdate_aad := (\<lambda>ctx b n. 1)\<rparr> = cenv_rename"
    by (simp add: cenv_rename_def)
  from rename_ignores_failed_associated_data [OF h1' h2']
  have r: "rename ?E ''key'' cstate0 = rename cenv_rename ''key'' cstate0"
    unfolding same .
  have "fst (rename cenv_rename ''key'' cstate0) = Inr ()
    \<and> seq_num (snd (rename cenv_rename ''key'' cstate0)) = 5
    \<and> CvSendField 4 ''TTTT'' \<in> set (rename_trace cenv_rename ''key'' cstate0)"
    by (simp add: rename_run eval_nat_numeral)
  with r have "fst (rename ?E ''key'' cstate0) = Inr ()
    \<and> seq_num (snd (rename ?E ''key'' cstate0)) = 5
    \<and> CvSendField 4 ''TTTT'' \<in> set (rename_trace ?E ''key'' cstate0)"
    by (simp add: rename_trace_def)
  with h1 h2 show ?thesis by blast
qed

section \<open>The sequence counter (C9)\<close>

text \<open>
  C9.  On every error exit of \<open>rename\<close> the counter is unchanged and \<open>inc_seqnum\<close>
  has not been called.  When \<open>rename\<close> returns, the counter is \<open>inc_seqnum\<close> of its
  old value, and \<open>inc_seqnum\<close> is the last call of the run, once, after the header,
  the ciphertext field and the tag field have been sent and each of the three sends has
  returned without error; the header and the associated data carry the old value.
\<close>

theorem rename_increments_seq_num_after_sending:
  "(\<forall>e. fst (rename E key s) = Inl e \<longrightarrow>
       seq_num (snd (rename E key s)) = seq_num s
     \<and> CvIncSeqnum \<notin> set (rename_trace E key s))
   \<and> (fst (rename E key s) = Inr () \<longrightarrow>
       seq_num (snd (rename E key s)) = inc_seqnum E (seq_num s)
     \<and> \<not> is_error (send_header_seq E RenameReq (seq_num s) (result (gen_iv E))
             (get_iv_len E))
     \<and> (\<exists>calls n ct m tag.
          rename_trace E key s
          = CvSendHeader RenameReq (seq_num s) (result (gen_iv E)) (get_iv_len E)
            # map CvEvp calls
            @ [CvSendField n ct, CvSendField m tag, CvIncSeqnum]
        \<and> AadUpdate (seqnum_to_uc E (seq_num s)) (sizeof_seqnum E) \<in> set calls
        \<and> \<not> is_error (client_send_field E n ct)
        \<and> \<not> is_error (client_send_field E m tag)))"
proof -
  obtain r s' where run: "rename E key s = (r, s')" by (cases "rename E key s")
  have 1: "seq_num (snd (rename E key s)) = seq_num s
     \<and> CvIncSeqnum \<notin> set (rename_trace E key s)" if "fst (rename E key s) = Inl e" for e
  proof -
    from that run have l: "rename E key s = (Inl e, s')" by simp
    from rename_Inl [OF l] obtain tr where
      "seq_num s' = seq_num s" "ctrace s' = ctrace s @ tr" "CvIncSeqnum \<notin> set tr" by blast
    with rename_trace_eq [OF l, of tr] l show ?thesis by simp
  qed
  have 2: "seq_num (snd (rename E key s)) = inc_seqnum E (seq_num s)
     \<and> \<not> is_error (send_header_seq E RenameReq (seq_num s) (result (gen_iv E))
             (get_iv_len E))
     \<and> (\<exists>calls n ct m tag.
          rename_trace E key s
          = CvSendHeader RenameReq (seq_num s) (result (gen_iv E)) (get_iv_len E)
            # map CvEvp calls
            @ [CvSendField n ct, CvSendField m tag, CvIncSeqnum]
        \<and> AadUpdate (seqnum_to_uc E (seq_num s)) (sizeof_seqnum E) \<in> set calls
        \<and> \<not> is_error (client_send_field E n ct)
        \<and> \<not> is_error (client_send_field E m tag))"
    if "fst (rename E key s) = Inr ()"
  proof -
    from that run have k: "rename E key s = (Inr (), s')" by simp
    from rename_Inr [OF k] have q: "seq_num s' = inc_seqnum E (seq_num s)" by blast
    from rename_Inr_sent [OF k] obtain n ct m tag where
      h: "\<not> is_error (send_header_seq E RenameReq (seq_num s) (result (gen_iv E))
             (get_iv_len E))"
      and c: "ctrace s' = ctrace s
            @ CvSendHeader RenameReq (seq_num s) (result (gen_iv E)) (get_iv_len E)
            # map CvEvp (aead_calls E key (seq_num s))
            @ [CvSendField n ct, CvSendField m tag, CvIncSeqnum]"
      and e: "\<not> is_error (client_send_field E n ct)" "\<not> is_error (client_send_field E m tag)"
      by blast
    have "AadUpdate (seqnum_to_uc E (seq_num s)) (sizeof_seqnum E)
        \<in> set (aead_calls E key (seq_num s))"
      by (simp add: aead_calls_def aad_ctx_def)
    with rename_trace_eq [OF k c] q k h e show ?thesis
      by auto
  qed
  from 1 2 show ?thesis by blast
qed

theorem rename_increments_seq_num_after_sending_witness:
  "fst (rename cenv_rename ''key'' cstate0) = Inr ()
   \<and> seq_num (snd (rename cenv_rename ''key'' cstate0)) = Suc (seq_num cstate0)
   \<and> \<not> is_error (send_header_seq cenv_rename RenameReq (seq_num cstate0)
         (result (gen_iv cenv_rename)) (get_iv_len cenv_rename))
   \<and> fst (rename (cenv_rename\<lparr>client_send_field :=
        (\<lambda>n b. \<lparr>is_error = True, error = ''send'', result = ()\<rparr>)\<rparr>) ''key'' cstate0)
     = Inl (HandleErrors ''send'')
   \<and> seq_num (snd (rename (cenv_rename\<lparr>client_send_field :=
        (\<lambda>n b. \<lparr>is_error = True, error = ''send'', result = ()\<rparr>)\<rparr>) ''key'' cstate0))
     = seq_num cstate0
   \<and> fst (rename (cenv_rename\<lparr>send_header_seq :=
        (\<lambda>t n iv l. \<lparr>is_error = True, error = ''header'', result = ()\<rparr>)\<rparr>) ''key'' cstate0)
     = Inl (HandleErrors ''header'')
   \<and> seq_num (snd (rename (cenv_rename\<lparr>send_header_seq :=
        (\<lambda>t n iv l. \<lparr>is_error = True, error = ''header'', result = ()\<rparr>)\<rparr>) ''key'' cstate0))
     = seq_num cstate0"
proof -
  let ?F = "cenv_rename\<lparr>client_send_field :=
        (\<lambda>n b. \<lparr>is_error = True, error = ''send'', result = ()\<rparr>)\<rparr>"
  let ?H = "cenv_rename\<lparr>send_header_seq :=
        (\<lambda>t n iv l. \<lparr>is_error = True, error = ''header'', result = ()\<rparr>)\<rparr>"
  have h1: "fst (rename cenv_rename ''key'' cstate0) = Inr ()"
    by (simp add: rename_run)
  have h2: "fst (rename ?F ''key'' cstate0) = Inl (HandleErrors ''send'')"
    by (simp add: rename_run)
  have h3: "fst (rename ?H ''key'' cstate0) = Inl (HandleErrors ''header'')"
    by (simp add: rename_run)
  have i: "inc_seqnum cenv_rename = Suc" by (simp add: cenv_rename_def)
  from rename_increments_seq_num_after_sending [of cenv_rename "''key''" cstate0] h1 i
  have a: "seq_num (snd (rename cenv_rename ''key'' cstate0)) = Suc (seq_num cstate0)
    \<and> \<not> is_error (send_header_seq cenv_rename RenameReq (seq_num cstate0)
         (result (gen_iv cenv_rename)) (get_iv_len cenv_rename))"
    by simp
  from rename_increments_seq_num_after_sending [of ?F "''key''" cstate0] h2
  have b: "seq_num (snd (rename ?F ''key'' cstate0)) = seq_num cstate0"
    by blast
  from rename_increments_seq_num_after_sending [of ?H "''key''" cstate0] h3
  have c: "seq_num (snd (rename ?H ''key'' cstate0)) = seq_num cstate0"
    by blast
  from h1 h2 h3 a b c show ?thesis by blast
qed

end
